theory Spec2Isabelle
  imports
    Complex_Main
    "HOL-Library.Stream"
    "HOL-Library.Log_Nat"
    "HOL-Library.List_Lexorder"
    "HOL-Library.Option_ord"
begin

section \<open>Values of the host language\<close>

text \<open>
  A JavaScript string is a sequence of UTF-16 code units; \<open>length\<close> counts code units,
  and the regular expressions of the service (written without the \<open>u\<close> flag) test code
  units. A string is therefore a list of code units, each a natural number.
  \<open>lit\<close> writes an ASCII literal.
\<close>

type_synonym jsstring = "nat list"

definition lit :: "string \<Rightarrow> jsstring" where
  "lit s = map of_char s"

text \<open>
  A \<open>Date\<close> object holds a time value in milliseconds since the epoch, or is an
  invalid date (time value NaN). \<open>new Date()\<close> reads the system clock and
  \<open>uuidv4()\<close> draws from the random generator: both are inputs of the program. The
  world holds every future reading of the clock and every future identifier, in the
  order in which the program will obtain them, and the table \<open>todos\<close> of the database.
\<close>

datatype date = Date_ms int | Invalid_Date

datatype TodoPriority = LOW | MEDIUM | HIGH

text \<open>
  A row of the table \<open>todos\<close> (migration 001). The columns \<open>due_date\<close>,
  \<open>created_at\<close>, \<open>updated_at\<close> and \<open>completed_at\<close> hold the text of a time stamp:
  \<open>toISOString\<close> writes it and \<open>new Date\<close> reads it back to the same time value, so the
  column is represented by the time value. The column \<open>tags\<close> holds the JSON text that
  \<open>JSON.stringify\<close> writes for a string array and \<open>JSON.parse\<close> reads back, and is
  represented by that array. The column \<open>priority\<close> is restricted by its CHECK
  constraint to the three labels.
\<close>

record db_row =
  row_id :: jsstring
  row_title :: jsstring
  row_description :: "jsstring option"
  row_completed :: int
  row_priority :: TodoPriority
  row_due_date :: "int option"
  row_tags :: "jsstring list"
  row_created_at :: int
  row_updated_at :: int
  row_completed_at :: "int option"

record world =
  clock :: "int stream"
  uuids :: "jsstring stream"
  todos_table :: "db_row list"
  table_accepts :: "db_row \<Rightarrow> bool"

text \<open>
  \<open>todos_table\<close> lists the rows in insertion order. \<open>table_accepts\<close> stands for the
  CHECK constraints of the table as the storage engine evaluates them on a row that is
  being written; the theorems below hold for every such predicate.
\<close>

definition new_Date :: "world \<Rightarrow> date \<times> world" where
  "new_Date w = (Date_ms (shd (clock w)), w\<lparr>clock := stl (clock w)\<rparr>)"

definition uuidv4 :: "world \<Rightarrow> jsstring \<times> world" where
  "uuidv4 w = (shd (uuids w), w\<lparr>uuids := stl (uuids w)\<rparr>)"

section \<open>The entity model (models/Todo.ts)\<close>

record Todo =
  todo_id :: jsstring
  title :: jsstring
  description :: "jsstring option"
  completed :: bool
  priority :: TodoPriority
  dueDate :: "date option"
  tags :: "jsstring list"
  createdAt :: date
  updatedAt :: date
  completedAt :: "date option"

text \<open>\<open>Partial<ITodo>\<close>: every field of the interface may be absent.\<close>

record TodoProps =
  p_id :: "jsstring option"
  p_title :: "jsstring option"
  p_description :: "jsstring option"
  p_completed :: "bool option"
  p_priority :: "TodoPriority option"
  p_dueDate :: "date option"
  p_tags :: "jsstring list option"
  p_createdAt :: "date option"
  p_updatedAt :: "date option"
  p_completedAt :: "date option"

record CreateTodoDto =
  dto_title :: jsstring
  dto_description :: "jsstring option"
  dto_priority :: "TodoPriority option"
  dto_dueDate :: "date option"
  dto_tags :: "jsstring list option"

text \<open>
  The private constructor. \<open>a || b\<close> takes \<open>b\<close> when \<open>a\<close> is absent or falsy: the
  empty string and \<open>false\<close> are falsy, a priority label, an array and a \<open>Date\<close> object
  never are. \<open>b\<close> is evaluated only when it is taken, so the generator and the clock
  are read only then.
\<close>

definition Todo_constructor :: "TodoProps \<Rightarrow> world \<Rightarrow> Todo \<times> world" where
  "Todo_constructor props w0 =
    (let (i, w1) = (case p_id props of
                      Some s \<Rightarrow> if s \<noteq> [] then (s, w0) else uuidv4 w0
                    | None \<Rightarrow> uuidv4 w0);
         (c, w2) = (case p_createdAt props of Some d \<Rightarrow> (d, w1) | None \<Rightarrow> new_Date w1);
         (u, w3) = (case p_updatedAt props of Some d \<Rightarrow> (d, w2) | None \<Rightarrow> new_Date w2)
     in (\<lparr>todo_id = i,
          title = (case p_title props of Some s \<Rightarrow> s | None \<Rightarrow> []),
          description = p_description props,
          completed = (case p_completed props of Some b \<Rightarrow> b | None \<Rightarrow> False),
          priority = (case p_priority props of Some p \<Rightarrow> p | None \<Rightarrow> MEDIUM),
          dueDate = p_dueDate props,
          tags = (case p_tags props of Some ts \<Rightarrow> ts | None \<Rightarrow> []),
          createdAt = c,
          updatedAt = u,
          completedAt = p_completedAt props\<rparr>, w3))"

text \<open>
  \<open>Todo.create\<close>: the object literal is evaluated first, reading the clock once for
  \<open>createdAt\<close> and once more for \<open>updatedAt\<close>; the constructor then draws the id.
\<close>

definition Todo_create :: "CreateTodoDto \<Rightarrow> world \<Rightarrow> Todo \<times> world" where
  "Todo_create dto w0 =
    (let (c, w1) = new_Date w0;
         (u, w2) = new_Date w1
     in Todo_constructor
          \<lparr>p_id = None,
           p_title = Some (dto_title dto),
           p_description = dto_description dto,
           p_completed = Some False,
           p_priority = Some (case dto_priority dto of Some p \<Rightarrow> p | None \<Rightarrow> MEDIUM),
           p_dueDate = dto_dueDate dto,
           p_tags = Some (case dto_tags dto of Some ts \<Rightarrow> ts | None \<Rightarrow> []),
           p_createdAt = Some c,
           p_updatedAt = Some u,
           p_completedAt = None\<rparr> w2)"

definition toJSON :: "Todo \<Rightarrow> Todo" where
  "toJSON t =
    \<lparr>todo_id = todo_id t, title = title t, description = description t,
     completed = completed t, priority = priority t, dueDate = dueDate t, tags = tags t,
     createdAt = createdAt t, updatedAt = updatedAt t, completedAt = completedAt t\<rparr>"

definition toggle :: "Todo \<Rightarrow> world \<Rightarrow> Todo \<times> world" where
  "toggle t w0 =
    (let t1 = t\<lparr>completed := \<not> completed t\<rparr>;
         (t2, w1) = (if completed t1
                     then (let (d, w) = new_Date w0 in (t1\<lparr>completedAt := Some d\<rparr>, w))
                     else (t1\<lparr>completedAt := None\<rparr>, w0));
         (u, w2) = new_Date w1
     in (t2\<lparr>updatedAt := u\<rparr>, w2))"

definition complete_todo :: "Todo \<Rightarrow> world \<Rightarrow> Todo \<times> world" where
  "complete_todo t w0 =
    (if completed t then (t, w0)
     else (let (d, w1) = new_Date w0;
               (u, w2) = new_Date w1
           in (t\<lparr>completed := True, completedAt := Some d, updatedAt := u\<rparr>, w2)))"

definition uncomplete :: "Todo \<Rightarrow> world \<Rightarrow> Todo \<times> world" where
  "uncomplete t w0 =
    (if \<not> completed t then (t, w0)
     else (let (u, w1) = new_Date w0
           in (t\<lparr>completed := False, completedAt := None, updatedAt := u\<rparr>, w1)))"

text \<open>
  \<open>update\<close>: the fields \<open>id\<close>, \<open>createdAt\<close>, \<open>updatedAt\<close> and \<open>completedAt\<close> of the
  argument are never read.
\<close>

definition update :: "TodoProps \<Rightarrow> Todo \<Rightarrow> world \<Rightarrow> Todo \<times> world" where
  "update updates t w0 =
    (let t1 = (case p_title updates of Some s \<Rightarrow> t\<lparr>title := s\<rparr> | None \<Rightarrow> t);
         t2 = (case p_description updates of Some s \<Rightarrow> t1\<lparr>description := Some s\<rparr> | None \<Rightarrow> t1);
         t3 = (case p_priority updates of Some p \<Rightarrow> t2\<lparr>priority := p\<rparr> | None \<Rightarrow> t2);
         t4 = (case p_dueDate updates of Some d \<Rightarrow> t3\<lparr>dueDate := Some d\<rparr> | None \<Rightarrow> t3);
         t5 = (case p_tags updates of Some ts \<Rightarrow> t4\<lparr>tags := ts\<rparr> | None \<Rightarrow> t4);
         (t6, w1) = (case p_completed updates of
                       Some b \<Rightarrow> if b \<noteq> completed t5
                                 then (if b then complete_todo t5 w0 else uncomplete t5 w0)
                                 else (t5, w0)
                     | None \<Rightarrow> (t5, w0));
         (u, w2) = new_Date w1
     in (t6\<lparr>updatedAt := u\<rparr>, w2))"

text \<open>The invariant of the data model.\<close>

definition completion_consistent :: "Todo \<Rightarrow> bool" where
  "completion_consistent t \<longleftrightarrow> (completed t \<longleftrightarrow> completedAt t \<noteq> None)"

section \<open>Errors\<close>

text \<open>
  The classes of utils/errors.ts and the errors of the runtime. An error carries its
  message and, for a \<open>ValidationError\<close>, the \<open>details\<close> object, kept as the list of
  its properties. A message is named by a constructor; a message built from a template
  literal carries the interpolated index.
\<close>

datatype message =
    Title_required
  | Title_too_short
  | Title_too_long
  | Title_invalid_characters
  | Description_too_long
  | Tags_too_many
  | Tag_invalid_at nat
  | DueDate_invalid
  | Todos_empty
  | Todos_too_many
  | Todo_invalid_at nat
  | Page_too_small
  | Limit_too_small
  | Limit_too_large
  | Invalid_time_value
  | Constraint_failed
  | Datatype_mismatch
  | Like_pattern_too_complex
  | Failed_to_create_todo

datatype jsvalue = JNum int | JStr jsstring | JMsg message | JDate date

datatype error =
    ValidationError message "(string \<times> jsvalue) list"
  | RangeError message
  | SqliteError message
  | Error message

fun error_message :: "error \<Rightarrow> message" where
  "error_message (ValidationError m d) = m"
| "error_message (RangeError m) = m"
| "error_message (SqliteError m) = m"
| "error_message (Error m) = m"

text \<open>
  \<open>Array.prototype.forEach\<close> with a callback that may throw: the elements are visited
  in order with their index, and the first exception ends the loop.
\<close>

fun forEach :: "('a \<Rightarrow> nat \<Rightarrow> error + unit) \<Rightarrow> 'a list \<Rightarrow> nat \<Rightarrow> error + unit" where
  "forEach f [] i = Inr ()"
| "forEach f (x # xs) i = (case f x i of Inl e \<Rightarrow> Inl e | Inr u \<Rightarrow> forEach f xs (Suc i))"

text \<open>\<open>Array.prototype.map\<close> with a callback that reads the clock or the generator.\<close>

fun map_world :: "('a \<Rightarrow> world \<Rightarrow> 'b \<times> world) \<Rightarrow> 'a list \<Rightarrow> world \<Rightarrow> 'b list \<times> world" where
  "map_world f [] w = ([], w)"
| "map_world f (x # xs) w =
     (let (y, w1) = f x w; (ys, w2) = map_world f xs w1 in (y # ys, w2))"

section \<open>Strings\<close>

text \<open>
  \<open>String.prototype.trim\<close> removes white space and line terminators at both ends:
  TAB, LF, VT, FF, CR, SP, NBSP, U+1680, U+2000 to U+200A, U+2028, U+2029, U+202F,
  U+205F, U+3000 and U+FEFF.
\<close>

definition is_white_space :: "nat \<Rightarrow> bool" where
  "is_white_space c \<longleftrightarrow>
     c \<in> {9, 10, 11, 12, 13, 32, 160, 5760, 8232, 8233, 8239, 8287, 12288, 65279}
     \<or> (8192 \<le> c \<and> c \<le> 8202)"

definition trim :: "jsstring \<Rightarrow> jsstring" where
  "trim s = rev (dropWhile is_white_space (rev (dropWhile is_white_space s)))"

text \<open>
  The title pattern \<^verbatim>\<open>/^[a-zA-Z\<close>U+00C0\<^verbatim>\<open>-\<close>U+00FF\<^verbatim>\<open>0-9 \-_'.,!?]+$/\<close>: one or more
  code units, each of the class.
\<close>

definition title_character :: "nat \<Rightarrow> bool" where
  "title_character c \<longleftrightarrow>
     (97 \<le> c \<and> c \<le> 122) \<or> (65 \<le> c \<and> c \<le> 90) \<or> (192 \<le> c \<and> c \<le> 255)
     \<or> (48 \<le> c \<and> c \<le> 57) \<or> c \<in> {32, 45, 95, 39, 46, 44, 33, 63}"

definition titleRegex_test :: "jsstring \<Rightarrow> bool" where
  "titleRegex_test s \<longleftrightarrow> s \<noteq> [] \<and> list_all title_character s"

section \<open>Validation of the service (services/TodoService.ts)\<close>

text \<open>
  \<open>validateCreateTodoDto\<close> runs its checks in order (title, description, tags, due
  date) and throws at the first that fails. The static types make \<open>tags\<close> an array of
  strings, so the tests \<open>Array.isArray\<close> and \<open>typeof tag\<close> cannot fail. \<open>new Date(d)\<close>
  of a \<open>Date\<close> copies its time value.
\<close>

definition and_then :: "error + unit \<Rightarrow> error + unit \<Rightarrow> error + unit" where
  "and_then first rest = (case first of Inl e \<Rightarrow> Inl e | Inr u \<Rightarrow> rest)"

definition validate_title :: "jsstring \<Rightarrow> error + unit" where
  "validate_title s =
    (if s = [] \<or> length (trim s) = 0 then
       Inl (ValidationError Title_required [(''field'', JStr (lit ''title''))])
     else if length s < 3 then
       Inl (ValidationError Title_too_short
             [(''field'', JStr (lit ''title'')), (''minLength'', JNum 3),
              (''provided'', JNum (int (length s)))])
     else if length s > 100 then
       Inl (ValidationError Title_too_long
             [(''field'', JStr (lit ''title'')), (''maxLength'', JNum 100),
              (''provided'', JNum (int (length s)))])
     else if \<not> titleRegex_test s then
       Inl (ValidationError Title_invalid_characters
             [(''field'', JStr (lit ''title'')), (''value'', JStr s)])
     else Inr ())"

definition validate_description :: "jsstring option \<Rightarrow> error + unit" where
  "validate_description d =
    (case d of
       None \<Rightarrow> Inr ()
     | Some s \<Rightarrow>
         if length s > 500 then
           Inl (ValidationError Description_too_long
                 [(''field'', JStr (lit ''description'')), (''maxLength'', JNum 500),
                  (''provided'', JNum (int (length s)))])
         else Inr ())"

definition validate_tags :: "jsstring list option \<Rightarrow> error + unit" where
  "validate_tags ts =
    (case ts of
       None \<Rightarrow> Inr ()
     | Some tgs \<Rightarrow>
         if length tgs > 10 then
           Inl (ValidationError Tags_too_many
                 [(''field'', JStr (lit ''tags'')), (''max'', JNum 10),
                  (''provided'', JNum (int (length tgs)))])
         else
           forEach (\<lambda>tag index.
               if length (trim tag) = 0 then
                 Inl (ValidationError (Tag_invalid_at index)
                       [(''field'', JStr (lit ''tags'')), (''index'', JNum (int index))])
               else Inr ()) tgs 0)"

definition validate_dueDate :: "date option \<Rightarrow> error + unit" where
  "validate_dueDate d =
    (case d of
       None \<Rightarrow> Inr ()
     | Some (Date_ms t) \<Rightarrow> Inr ()
     | Some Invalid_Date \<Rightarrow>
         Inl (ValidationError DueDate_invalid
               [(''field'', JStr (lit ''dueDate'')), (''value'', JDate Invalid_Date)]))"

definition validateCreateTodoDto :: "CreateTodoDto \<Rightarrow> error + unit" where
  "validateCreateTodoDto dto =
    and_then (validate_title (dto_title dto))
   (and_then (validate_description (dto_description dto))
   (and_then (validate_tags (dto_tags dto))
             (validate_dueDate (dto_dueDate dto))))"

section \<open>Rows of the table (models/Todo.ts)\<close>

text \<open>
  \<open>toDatabase\<close>. \<open>toISOString\<close> throws a \<open>RangeError\<close> on an invalid date. The
  properties of the object literal are evaluated in the order written.
\<close>

definition toISOString :: "date \<Rightarrow> error + int" where
  "toISOString d = (case d of Date_ms t \<Rightarrow> Inr t | Invalid_Date \<Rightarrow> Inl (RangeError Invalid_time_value))"

definition toISOString_opt :: "date option \<Rightarrow> error + int option" where
  "toISOString_opt d =
    (case d of
       None \<Rightarrow> Inr None
     | Some x \<Rightarrow> (case toISOString x of Inl e \<Rightarrow> Inl e | Inr t \<Rightarrow> Inr (Some t)))"

definition toDatabase :: "Todo \<Rightarrow> error + db_row" where
  "toDatabase t =
    (case toISOString_opt (dueDate t) of Inl e \<Rightarrow> Inl e | Inr due \<Rightarrow>
     case toISOString (createdAt t) of Inl e \<Rightarrow> Inl e | Inr created \<Rightarrow>
     case toISOString (updatedAt t) of Inl e \<Rightarrow> Inl e | Inr updated \<Rightarrow>
     case toISOString_opt (completedAt t) of Inl e \<Rightarrow> Inl e | Inr done \<Rightarrow>
       Inr \<lparr>row_id = todo_id t,
            row_title = title t,
            row_description = (case description t of
                                 Some d \<Rightarrow> if d \<noteq> [] then Some d else None
                               | None \<Rightarrow> None),
            row_completed = (if completed t then 1 else 0),
            row_priority = priority t,
            row_due_date = due,
            row_tags = tags t,
            row_created_at = created,
            row_updated_at = updated,
            row_completed_at = done\<rparr>)"

definition fromDatabase :: "db_row \<Rightarrow> world \<Rightarrow> Todo \<times> world" where
  "fromDatabase raw w =
    Todo_constructor
      \<lparr>p_id = Some (row_id raw),
       p_title = Some (row_title raw),
       p_description = (case row_description raw of
                          Some d \<Rightarrow> if d \<noteq> [] then Some d else None
                        | None \<Rightarrow> None),
       p_completed = Some (row_completed raw \<noteq> 0),
       p_priority = Some (row_priority raw),
       p_dueDate = map_option Date_ms (row_due_date raw),
       p_tags = Some (row_tags raw),
       p_createdAt = Some (Date_ms (row_created_at raw)),
       p_updatedAt = Some (Date_ms (row_updated_at raw)),
       p_completedAt = map_option Date_ms (row_completed_at raw)\<rparr> w"

section \<open>Single and bulk creation (repositories/TodoRepository.ts, services/TodoService.ts)\<close>

text \<open>
  The INSERT statement. The engine refuses a row whose id is already a primary key of
  the table and a row that violates a CHECK constraint; otherwise it appends the row and
  reports one change.
\<close>

definition run_insert :: "db_row \<Rightarrow> world \<Rightarrow> (error + nat) \<times> world" where
  "run_insert r w =
    (if row_id r \<in> set (map row_id (todos_table w)) \<or> \<not> table_accepts w r
     then (Inl (SqliteError Constraint_failed), w)
     else (Inr 1, w\<lparr>todos_table := todos_table w @ [r]\<rparr>))"

definition repository_create :: "Todo \<Rightarrow> world \<Rightarrow> (error + Todo) \<times> world" where
  "repository_create todo w =
    (case toDatabase todo of
       Inl e \<Rightarrow> (Inl e, w)
     | Inr dbData \<Rightarrow>
         (case run_insert dbData w of
            (Inl e, w1) \<Rightarrow> (Inl e, w1)
          | (Inr changes, w1) \<Rightarrow>
              if changes = 0 then (Inl (Error Failed_to_create_todo), w1)
              else (Inr (toJSON todo), w1)))"

text \<open>\<open>Todo.fromDatabase(row).toJSON()\<close>, as \<open>findById\<close> and \<open>findAll\<close> apply it to a row.\<close>

definition row_to_json :: "db_row \<Rightarrow> world \<Rightarrow> Todo \<times> world" where
  "row_to_json row w = (let (t, w1) = fromDatabase row w in (toJSON t, w1))"


text \<open>
  \<open>db.transaction\<close>: when the unit of work throws, the table is rolled back to its
  state at the start and the exception is thrown again.
\<close>

definition transaction :: "(world \<Rightarrow> (error + 'a) \<times> world) \<Rightarrow> world \<Rightarrow> (error + 'a) \<times> world" where
  "transaction work w =
    (case work w of
       (Inl e, w1) \<Rightarrow> (Inl e, w1\<lparr>todos_table := todos_table w\<rparr>)
     | (Inr x, w1) \<Rightarrow> (Inr x, w1))"

fun insertMany :: "Todo list \<Rightarrow> world \<Rightarrow> (error + unit) \<times> world" where
  "insertMany [] w = (Inr (), w)"
| "insertMany (todo # todosToInsert) w =
     (case toDatabase todo of
        Inl e \<Rightarrow> (Inl e, w)
      | Inr dbData \<Rightarrow>
          (case run_insert dbData w of
             (Inl e, w1) \<Rightarrow> (Inl e, w1)
           | (Inr changes, w1) \<Rightarrow> insertMany todosToInsert w1))"

definition repository_bulkCreate :: "Todo list \<Rightarrow> world \<Rightarrow> (error + Todo list) \<times> world" where
  "repository_bulkCreate todos w =
    (case transaction (insertMany todos) w of
       (Inl e, w1) \<Rightarrow> (Inl e, w1)
     | (Inr u, w1) \<Rightarrow> (Inr (map toJSON todos), w1))"

text \<open>The service rethrows what it catches after logging it.\<close>

definition createTodo :: "CreateTodoDto \<Rightarrow> world \<Rightarrow> (error + Todo) \<times> world" where
  "createTodo dto w =
    (case validateCreateTodoDto dto of
       Inl e \<Rightarrow> (Inl e, w)
     | Inr u \<Rightarrow> (let (todo, w1) = Todo_create dto w in repository_create todo w1))"

record BulkCreateDto =
  todos :: "CreateTodoDto list"

definition bulkCreate :: "BulkCreateDto \<Rightarrow> world \<Rightarrow> (error + Todo list) \<times> world" where
  "bulkCreate dto w =
    (if length (todos dto) = 0 then (Inl (ValidationError Todos_empty []), w)
     else if length (todos dto) > 100 then
       (Inl (ValidationError Todos_too_many
               [(''provided'', JNum (int (length (todos dto)))), (''max'', JNum 100)]), w)
     else
       (case forEach (\<lambda>todoDto index.
                 case validateCreateTodoDto todoDto of
                   Inl e \<Rightarrow> Inl (ValidationError (Todo_invalid_at index)
                                   [(''index'', JNum (int index)), (''error'', JMsg (error_message e))])
                 | Inr u \<Rightarrow> Inr ()) (todos dto) 0 of
          Inl e \<Rightarrow> (Inl e, w)
        | Inr u \<Rightarrow>
            (let (created, w1) = map_world Todo_create (todos dto) w
             in repository_bulkCreate created w1)))"

section \<open>Numbers\<close>

text \<open>
  A JavaScript number is a double. A finite double is a rational number; the result of
  a division, a multiplication or a subtraction is the exact result rounded to the
  nearest double, ties to the even significand of 53 bits. \<open>binary_exponent q\<close> is the
  integer \<open>e\<close> with \<open>2^e \<le> q < 2^(e+1)\<close>. Subnormal numbers do not arise in the
  arithmetic of this program. An overflow to infinity can arise only in the offset of a
  query, where the storage engine refuses the finite number of that size as it refuses
  infinity, so rounding without overflow gives the same outcome.
\<close>

definition round_half_even :: "rat \<Rightarrow> int" where
  "round_half_even x =
    (let f = \<lfloor>x\<rfloor>; d = x - of_int f
     in if d < 1 / 2 then f else if 1 / 2 < d then f + 1 else if even f then f else f + 1)"

definition binary_exponent :: "rat \<Rightarrow> int" where
  "binary_exponent q =
    (let (a, b) = quotient_of q; d = bitlen a - bitlen b
     in if power_int 2 d \<le> q then d else d - 1)"

definition to_double :: "rat \<Rightarrow> rat" where
  "to_double q =
    (if q = 0 then 0
     else (let ulp = power_int 2 (binary_exponent \<bar>q\<bar> - 52)
           in sgn q * of_int (round_half_even (\<bar>q\<bar> / ulp)) * ulp))"

definition double_div :: "rat \<Rightarrow> rat \<Rightarrow> rat" where
  "double_div x y = to_double (x / y)"

definition double_mul :: "rat \<Rightarrow> rat \<Rightarrow> rat" where
  "double_mul x y = to_double (x * y)"

definition double_sub :: "rat \<Rightarrow> rat \<Rightarrow> rat" where
  "double_sub x y = to_double (x - y)"

text \<open>\<open>Math.round\<close>: the nearest integer, a tie going up.\<close>

definition Math_round :: "rat \<Rightarrow> int" where
  "Math_round x = \<lfloor>x + 1 / 2\<rfloor>"

section \<open>Queries (repositories/TodoRepository.ts)\<close>

datatype TodoFilter = FILTER_ALL | FILTER_ACTIVE | FILTER_COMPLETED

datatype TodoSortField = CREATED_AT | UPDATED_AT | TITLE | PRIORITY | DUE_DATE

datatype SortOrder = ASC | DESC

record TodoQueryParams =
  q_filter :: "TodoFilter option"
  q_sortBy :: "TodoSortField option"
  q_sortOrder :: "SortOrder option"
  q_page :: "int option"
  q_limit :: "int option"
  q_search :: "jsstring option"
  q_priority :: "TodoPriority option"
  q_tags :: "jsstring list option"

text \<open>
  A number that a division may produce: the quotient by zero is an infinity, or NaN
  when the dividend is zero too.
\<close>

datatype jsnum = Num int | PosInfinity | NegInfinity | NaN

record PaginationMeta =
  currentPage :: int
  totalPages :: jsnum
  totalItems :: int
  itemsPerPage :: int
  hasNextPage :: bool
  hasPreviousPage :: bool

record PaginatedResponse =
  data :: "Todo list"
  meta :: PaginationMeta

subsection \<open>The operator LIKE\<close>

text \<open>
  The operator LIKE of the storage engine, without ESCAPE clause: in the pattern,
  \<^verbatim>\<open>%\<close> (code 37) matches any run of characters, also the empty one, \<^verbatim>\<open>_\<close> (code 95)
  matches any one character, and every other character matches itself, where the
  letters A to Z of ASCII match their lower-case forms and no other character matches
  another.
\<close>

definition ascii_lower :: "nat \<Rightarrow> nat" where
  "ascii_lower c = (if 65 \<le> c \<and> c \<le> 90 then c + 32 else c)"

fun sql_like :: "jsstring \<Rightarrow> jsstring \<Rightarrow> bool" where
  "sql_like [] [] = True"
| "sql_like [] (c # cs) = False"
| "sql_like (p # ps) [] = (p = 37 \<and> sql_like ps [])"
| "sql_like (p # ps) (c # cs) =
     (if p = 37 then sql_like ps (c # cs) \<or> sql_like (p # ps) cs
      else (p = 95 \<or> ascii_lower p = ascii_lower c) \<and> sql_like ps cs)"

subsection \<open>The JSON text of a string array\<close>

text \<open>
  \<open>JSON.stringify\<close> of an array of strings: each string between double quotes, with
  the quote, the backslash and the control characters escaped, and a surrogate that is
  not part of a pair written as a \<^verbatim>\<open>\u\<close> escape.
\<close>

definition hex_digit :: "nat \<Rightarrow> nat" where
  "hex_digit d = (if d < 10 then 48 + d else 87 + d)"

definition unicode_escape :: "nat \<Rightarrow> jsstring" where
  "unicode_escape c =
    [92, 117, hex_digit (c div 4096 mod 16), hex_digit (c div 256 mod 16),
     hex_digit (c div 16 mod 16), hex_digit (c mod 16)]"

definition quote_code_unit :: "nat \<Rightarrow> jsstring" where
  "quote_code_unit c =
    (if c = 8 then [92, 98] else if c = 9 then [92, 116] else if c = 10 then [92, 110]
     else if c = 12 then [92, 102] else if c = 13 then [92, 114]
     else if c = 34 then [92, 34] else if c = 92 then [92, 92]
     else if c < 32 then unicode_escape c
     else [c])"

definition is_high_surrogate :: "nat \<Rightarrow> bool" where
  "is_high_surrogate c \<longleftrightarrow> 55296 \<le> c \<and> c \<le> 56319"

definition is_low_surrogate :: "nat \<Rightarrow> bool" where
  "is_low_surrogate c \<longleftrightarrow> 56320 \<le> c \<and> c \<le> 57343"

fun quote_code_units :: "jsstring \<Rightarrow> jsstring" where
  "quote_code_units [] = []"
| "quote_code_units [c] =
     (if is_high_surrogate c \<or> is_low_surrogate c then unicode_escape c else quote_code_unit c)"
| "quote_code_units (c # d # cs) =
     (if is_high_surrogate c \<and> is_low_surrogate d then c # d # quote_code_units cs
      else if is_high_surrogate c \<or> is_low_surrogate c then unicode_escape c @ quote_code_units (d # cs)
      else quote_code_unit c @ quote_code_units (d # cs))"

definition JSON_quote :: "jsstring \<Rightarrow> jsstring" where
  "JSON_quote s = [34] @ quote_code_units s @ [34]"

fun join_comma :: "jsstring list \<Rightarrow> jsstring" where
  "join_comma [] = []"
| "join_comma [x] = x"
| "join_comma (x # y # ys) = x @ [44] @ join_comma (y # ys)"

definition JSON_stringify :: "jsstring list \<Rightarrow> jsstring" where
  "JSON_stringify xs = [91] @ join_comma (map JSON_quote xs) @ [93]"

subsection \<open>findAll\<close>

text \<open>
  The WHERE clause that \<open>findAll\<close> assembles: a condition on the status unless the
  filter is \<open>all\<close>, a condition on the priority when one is given, the two LIKE tests
  when the search string is not blank, and one LIKE test per tag on the JSON text of the
  column \<open>tags\<close>. A LIKE test on a NULL description is not true.
\<close>

definition where_clause :: "TodoQueryParams \<Rightarrow> db_row \<Rightarrow> bool" where
  "where_clause params r \<longleftrightarrow>
     (case (case q_filter params of Some f \<Rightarrow> f | None \<Rightarrow> FILTER_ALL) of
        FILTER_ACTIVE \<Rightarrow> row_completed r = 0
      | FILTER_COMPLETED \<Rightarrow> row_completed r = 1
      | FILTER_ALL \<Rightarrow> True)
   \<and> (case q_priority params of Some p \<Rightarrow> row_priority r = p | None \<Rightarrow> True)
   \<and> (case q_search params of
        Some search \<Rightarrow>
          if search \<noteq> [] \<and> length (trim search) > 0 then
            (let searchPattern = [37] @ trim search @ [37]
             in sql_like searchPattern (row_title r)
                \<or> (case row_description r of Some d \<Rightarrow> sql_like searchPattern d | None \<Rightarrow> False))
          else True
      | None \<Rightarrow> True)
   \<and> (case q_tags params of
        Some tgs \<Rightarrow>
          if length tgs > 0 then
            list_ex (\<lambda>tag. length (row_tags r) > 0
                            \<and> sql_like ([37, 34] @ tag @ [34, 37]) (JSON_stringify (row_tags r))) tgs
          else True
      | None \<Rightarrow> True)"

text \<open>
  ORDER BY. SQL leaves the order of rows with equal keys open; here they keep the
  order of the table. NULL sorts before every value. Texts are compared code unit by
  code unit, time stamps by their time value.
\<close>

definition order_by :: "('a \<Rightarrow> 'k::linorder) \<Rightarrow> SortOrder \<Rightarrow> 'a list \<Rightarrow> 'a list" where
  "order_by key direction rows =
    (case direction of
       ASC \<Rightarrow> sort_key key rows
     | DESC \<Rightarrow> rev (sort_key key (rev rows)))"

text \<open>The CASE expression of the priority sort.\<close>

fun priority_rank :: "TodoPriority \<Rightarrow> int" where
  "priority_rank HIGH = 1"
| "priority_rank MEDIUM = 2"
| "priority_rank LOW = 3"

definition order_clause :: "TodoSortField \<Rightarrow> SortOrder \<Rightarrow> db_row list \<Rightarrow> db_row list" where
  "order_clause sortBy sortOrder rows =
    (case sortBy of
       PRIORITY \<Rightarrow> order_by (\<lambda>r. priority_rank (row_priority r)) sortOrder rows
     | CREATED_AT \<Rightarrow> order_by row_created_at sortOrder rows
     | UPDATED_AT \<Rightarrow> order_by row_updated_at sortOrder rows
     | TITLE \<Rightarrow> order_by row_title sortOrder rows
     | DUE_DATE \<Rightarrow> order_by row_due_date sortOrder rows)"

text \<open>LIMIT and OFFSET: a negative limit is no limit, a negative offset is zero.\<close>

definition limit_offset :: "int \<Rightarrow> int \<Rightarrow> 'a list \<Rightarrow> 'a list" where
  "limit_offset n k rows =
    (let rest = drop (nat k) rows in if n < 0 then rest else take (nat n) rest)"

text \<open>
  \<open>Math.ceil(totalItems / limit)\<close>. The quotient of two integers is computed in
  double precision; for a count below \<open>2^53\<close>, which
  the size limit of a database file guarantees, the ceiling of the rounded quotient is
  the ceiling of the exact one (lemma \<open>Math_ceil_quotient_double\<close>), and that is the
  value taken here.
\<close>

definition Math_ceil_quotient :: "int \<Rightarrow> int \<Rightarrow> jsnum" where
  "Math_ceil_quotient a b =
    (if b = 0 then (if a = 0 then NaN else if 0 < a then PosInfinity else NegInfinity)
     else Num \<lceil>real_of_int a / real_of_int b\<rceil>)"

fun js_less :: "int \<Rightarrow> jsnum \<Rightarrow> bool" where
  "js_less p (Num t) = (p < t)"
| "js_less p PosInfinity = True"
| "js_less p NegInfinity = False"
| "js_less p NaN = False"

text \<open>
  The numbers bound to LIMIT and OFFSET. \<open>page\<close> and \<open>limit\<close> are JavaScript numbers
  with integer values, and \<open>(page - 1) * limit\<close> is computed in double precision. The
  driver binds a number as a REAL. The engine requires an integer for LIMIT and for
  OFFSET: it converts a REAL whose value is an integer strictly between \<open>-2^63\<close> and
  \<open>2^63\<close>, and fails with the error \<open>datatype mismatch\<close> on any other.
\<close>

definition offset_number :: "int \<Rightarrow> int \<Rightarrow> rat" where
  "offset_number page limit = double_mul (double_sub (of_int page) 1) (of_int limit)"

definition must_be_int :: "rat \<Rightarrow> error + int" where
  "must_be_int v =
    (if v = of_int \<lfloor>v\<rfloor> \<and> - (2 ^ 63) < v \<and> v < 2 ^ 63 then Inr \<lfloor>v\<rfloor>
     else Inl (SqliteError Datatype_mismatch))"

definition bound_paging :: "TodoQueryParams \<Rightarrow> error + int \<times> int" where
  "bound_paging params =
    (let page = (case q_page params of Some p \<Rightarrow> p | None \<Rightarrow> 1);
         limit = (case q_limit params of Some l \<Rightarrow> l | None \<Rightarrow> 50)
     in case must_be_int (of_int limit) of
          Inl e \<Rightarrow> Inl e
        | Inr l \<Rightarrow>
            (case must_be_int (offset_number page limit) of
               Inl e \<Rightarrow> Inl e
             | Inr k \<Rightarrow> Inr (l, k)))"

text \<open>
  The length limit of LIKE. The driver binds a string as its UTF-8 text, where a code
  unit below 128 takes one byte, one below 2048 two, a surrogate pair four, and every
  other code unit three (a lone surrogate is replaced by U+FFFD). The engine refuses a
  pattern of more than 50000 bytes with the error \<open>LIKE or GLOB pattern too complex\<close>,
  at the moment it evaluates the operator on a row.
\<close>

definition utf8_unit :: "nat \<Rightarrow> nat" where
  "utf8_unit c = (if c < 128 then 1 else if c < 2048 then 2 else 3)"

fun utf8_length :: "jsstring \<Rightarrow> nat" where
  "utf8_length [] = 0"
| "utf8_length [c] = utf8_unit c"
| "utf8_length (c # d # cs) =
     (if is_high_surrogate c \<and> is_low_surrogate d then 4 + utf8_length cs
      else utf8_unit c + utf8_length (d # cs))"

definition pattern_too_long :: "jsstring \<Rightarrow> bool" where
  "pattern_too_long pat \<longleftrightarrow> utf8_length pat > 50000"

text \<open>
  The rows on which the WHERE clause of \<open>findAll\<close> fails in this way. The engine
  evaluates the conditions in their order and stops at the first that is false; in a
  disjunction it stops at the first operand that is true. So the search pattern is
  tested on the rows that pass the conditions on the status and on the priority, first
  against the title; the pattern of a tag is tested on the rows that pass the search as
  well and have a tag, when no tag before it has matched.
\<close>

fun tag_tests_fail :: "jsstring list \<Rightarrow> jsstring \<Rightarrow> bool" where
  "tag_tests_fail [] x = False"
| "tag_tests_fail (tag # tgs) x =
     (pattern_too_long ([37, 34] @ tag @ [34, 37])
      \<or> (\<not> sql_like ([37, 34] @ tag @ [34, 37]) x \<and> tag_tests_fail tgs x))"

definition tags_condition_fails :: "TodoQueryParams \<Rightarrow> db_row \<Rightarrow> bool" where
  "tags_condition_fails params r \<longleftrightarrow>
     (case q_tags params of
        Some tgs \<Rightarrow>
          length tgs > 0 \<and> length (row_tags r) > 0
          \<and> tag_tests_fail tgs (JSON_stringify (row_tags r))
      | None \<Rightarrow> False)"

definition where_clause_fails :: "TodoQueryParams \<Rightarrow> db_row \<Rightarrow> bool" where
  "where_clause_fails params r \<longleftrightarrow>
     (case (case q_filter params of Some f \<Rightarrow> f | None \<Rightarrow> FILTER_ALL) of
        FILTER_ACTIVE \<Rightarrow> row_completed r = 0
      | FILTER_COMPLETED \<Rightarrow> row_completed r = 1
      | FILTER_ALL \<Rightarrow> True)
   \<and> (case q_priority params of Some p \<Rightarrow> row_priority r = p | None \<Rightarrow> True)
   \<and> (case q_search params of
        Some search \<Rightarrow>
          if search \<noteq> [] \<and> length (trim search) > 0 then
            (let searchPattern = [37] @ trim search @ [37]
             in pattern_too_long searchPattern
                \<or> ((sql_like searchPattern (row_title r)
                      \<or> (case row_description r of Some d \<Rightarrow> sql_like searchPattern d | None \<Rightarrow> False))
                    \<and> tags_condition_fails params r))
          else tags_condition_fails params r
      | None \<Rightarrow> tags_condition_fails params r)"

text \<open>
  The rows that the SELECT statement of \<open>findAll\<close> returns when LIMIT is \<open>l\<close> and OFFSET
  is \<open>k\<close>.
\<close>

definition selected_rows :: "TodoQueryParams \<Rightarrow> int \<Rightarrow> int \<Rightarrow> db_row list \<Rightarrow> db_row list" where
  "selected_rows params l k table =
    (let sortBy = (case q_sortBy params of Some f \<Rightarrow> f | None \<Rightarrow> CREATED_AT);
         sortOrder = (case q_sortOrder params of Some d \<Rightarrow> d | None \<Rightarrow> DESC)
     in limit_offset l k (order_clause sortBy sortOrder (filter (where_clause params) table)))"

text \<open>
  \<open>findAll\<close>: the count query, which throws when the engine refuses a pattern on some
  row, then the SELECT, which throws when the engine refuses the limit or the offset,
  then the conversion of the rows and the metadata.
\<close>

definition findAll :: "TodoQueryParams \<Rightarrow> world \<Rightarrow> (error + PaginatedResponse) \<times> world" where
  "findAll params w =
    (let page = (case q_page params of Some p \<Rightarrow> p | None \<Rightarrow> 1);
         limit = (case q_limit params of Some l \<Rightarrow> l | None \<Rightarrow> 50);
         total = int (length (filter (where_clause params) (todos_table w)))
     in if list_ex (where_clause_fails params) (todos_table w) then
          (Inl (SqliteError Like_pattern_too_complex), w)
        else
          (case bound_paging params of
             Inl e \<Rightarrow> (Inl e, w)
           | Inr (l, k) \<Rightarrow>
               (let rows = selected_rows params l k (todos_table w);
                    (found, w1) = map_world row_to_json rows w;
                    pages = Math_ceil_quotient total limit
                in (Inr \<lparr>data = found,
                         meta = \<lparr>currentPage = page,
                                 totalPages = pages,
                                 totalItems = total,
                                 itemsPerPage = limit,
                                 hasNextPage = js_less page pages,
                                 hasPreviousPage = (page > 1)\<rparr>\<rparr>, w1))))"

text \<open>
  \<open>getAllTodos\<close> of the service: three checks in order, then the query, whose result or
  exception is passed on.
  \<open>params.page && params.page < 1\<close> is false when the page is absent and when it is
  zero, which is falsy; likewise for the two tests of the limit.
\<close>

definition check_page :: "int option \<Rightarrow> error + unit" where
  "check_page page =
    (case page of
       Some p \<Rightarrow>
         if p \<noteq> 0 \<and> p < 1 then
           Inl (ValidationError Page_too_small [(''field'', JStr (lit ''page'')), (''value'', JNum p)])
         else Inr ()
     | None \<Rightarrow> Inr ())"

definition check_limit_low :: "int option \<Rightarrow> error + unit" where
  "check_limit_low limit =
    (case limit of
       Some l \<Rightarrow>
         if l \<noteq> 0 \<and> l < 1 then
           Inl (ValidationError Limit_too_small [(''field'', JStr (lit ''limit'')), (''value'', JNum l)])
         else Inr ()
     | None \<Rightarrow> Inr ())"

definition check_limit_high :: "int option \<Rightarrow> error + unit" where
  "check_limit_high limit =
    (case limit of
       Some l \<Rightarrow>
         if l \<noteq> 0 \<and> l > 100 then
           Inl (ValidationError Limit_too_large [(''field'', JStr (lit ''limit'')), (''value'', JNum l)])
         else Inr ()
     | None \<Rightarrow> Inr ())"

definition getAllTodos :: "TodoQueryParams \<Rightarrow> world \<Rightarrow> (error + PaginatedResponse) \<times> world" where
  "getAllTodos params w =
    (case and_then (check_page (q_page params))
          (and_then (check_limit_low (q_limit params))
                    (check_limit_high (q_limit params))) of
       Inl e \<Rightarrow> (Inl e, w)
     | Inr u \<Rightarrow> findAll params w)"

section \<open>Statistics (repositories/TodoRepository.ts)\<close>

record PriorityStats =
  low :: int
  medium :: int
  high :: int

record TodoStats =
  total :: int
  stats_completed :: int
  active :: int
  overdue :: int
  byPriority :: PriorityStats
  completionRate :: int

definition count :: "TodoFilter \<Rightarrow> world \<Rightarrow> int" where
  "count f w =
    (case f of
       FILTER_ACTIVE \<Rightarrow> int (length (filter (\<lambda>r. row_completed r = 0) (todos_table w)))
     | FILTER_COMPLETED \<Rightarrow> int (length (filter (\<lambda>r. row_completed r = 1) (todos_table w)))
     | FILTER_ALL \<Rightarrow> int (length (todos_table w)))"

text \<open>
  \<open>getStats\<close>. The overdue query compares \<open>datetime(due_date)\<close> with
  \<open>datetime('now')\<close>, both cut to whole seconds; the engine reads the same clock as
  \<open>new Date()\<close>. The completion rate is \<open>Math.round((completed / total) * 100)\<close>,
  a division and then a multiplication in double precision.
\<close>

definition getStats :: "world \<Rightarrow> TodoStats \<times> world" where
  "getStats w =
    (let n = count FILTER_ALL w;
         c = count FILTER_COMPLETED w;
         a = count FILTER_ACTIVE w;
         now = shd (clock w);
         w1 = w\<lparr>clock := stl (clock w)\<rparr>;
         late = int (length (filter (\<lambda>r. row_completed r = 0
                       \<and> (case row_due_date r of Some d \<Rightarrow> d div 1000 < now div 1000 | None \<Rightarrow> False))
                     (todos_table w)));
         per = (\<lambda>p. int (length (filter (\<lambda>r. row_priority r = p) (todos_table w))))
     in (\<lparr>total = n,
          stats_completed = c,
          active = a,
          overdue = late,
          byPriority = \<lparr>low = per LOW, medium = per MEDIUM, high = per HIGH\<rparr>,
          completionRate =
            (if n > 0 then Math_round (double_mul (double_div (of_int c) (of_int n)) 100) else 0)\<rparr>,
         w1))"

section \<open>Notions used to state the properties\<close>


text \<open>
  A query within the limits of the engine. The paging is safe when the limit, the page
  before the current one and their product, the offset, are below \<open>2^53\<close> in absolute
  value, so that the arithmetic of \<open>findAll\<close> on them is exact. The patterns fit when the
  pattern of the search text and the pattern of each tag have at most 50000 bytes.
\<close>

definition safe_paging :: "TodoQueryParams \<Rightarrow> bool" where
  "safe_paging params \<longleftrightarrow>
    (let page = (case q_page params of Some p \<Rightarrow> p | None \<Rightarrow> 1);
         limit = (case q_limit params of Some l \<Rightarrow> l | None \<Rightarrow> 50)
     in \<bar>limit\<bar> < 2 ^ 53 \<and> \<bar>page - 1\<bar> < 2 ^ 53 \<and> \<bar>(page - 1) * limit\<bar> < 2 ^ 53)"

definition patterns_fit :: "TodoQueryParams \<Rightarrow> bool" where
  "patterns_fit params \<longleftrightarrow>
     (case q_search params of
        Some search \<Rightarrow> \<not> pattern_too_long ([37] @ trim search @ [37])
      | None \<Rightarrow> True)
   \<and> (case q_tags params of
        Some tgs \<Rightarrow> list_all (\<lambda>tag. \<not> pattern_too_long ([37, 34] @ tag @ [34, 37])) tgs
      | None \<Rightarrow> True)"







section \<open>Example inputs\<close>

definition world0 :: world where
  "world0 =
    \<lparr>clock = siterate (\<lambda>t. t + 1) 1000,
     uuids = smap (\<lambda>n. lit ''id-'' @ [n]) (siterate Suc 97),
     todos_table = [],
     table_accepts = (\<lambda>r. 3 \<le> length (row_title r) \<and> length (row_title r) \<le> 100)\<rparr>"

definition buy_milk :: CreateTodoDto where
  "buy_milk =
    \<lparr>dto_title = lit ''Buy milk'', dto_description = None, dto_priority = None,
     dto_dueDate = None, dto_tags = None\<rparr>"

definition todo_active :: Todo where
  "todo_active =
    \<lparr>todo_id = lit ''id-a'', title = lit ''Buy milk'', description = None, completed = False,
     priority = MEDIUM, dueDate = None, tags = [], createdAt = Date_ms 10,
     updatedAt = Date_ms 10, completedAt = None\<rparr>"

definition todo_done :: Todo where
  "todo_done = todo_active\<lparr>completed := True, completedAt := Some (Date_ms 20), updatedAt := Date_ms 20\<rparr>"

definition no_updates :: TodoProps where
  "no_updates =
    \<lparr>p_id = None, p_title = None, p_description = None, p_completed = None,
     p_priority = None, p_dueDate = None, p_tags = None, p_createdAt = None,
     p_updatedAt = None, p_completedAt = None\<rparr>"

definition title_only :: "jsstring \<Rightarrow> CreateTodoDto" where
  "title_only s =
    \<lparr>dto_title = s, dto_description = None, dto_priority = None, dto_dueDate = None,
     dto_tags = None\<rparr>"




definition short_title :: CreateTodoDto where
  "short_title = title_only (lit ''ab'')"

definition walk_dog :: CreateTodoDto where
  "walk_dog = title_only (lit ''Walk the dog'')"

definition task_low :: CreateTodoDto where
  "task_low = (title_only (lit ''Water plants''))\<lparr>dto_priority := Some LOW\<rparr>"

definition task_high :: CreateTodoDto where
  "task_high = (title_only (lit ''Pay rent''))\<lparr>dto_priority := Some HIGH\<rparr>"

definition task_medium :: CreateTodoDto where
  "task_medium = (title_only (lit ''Call Ana''))\<lparr>dto_priority := Some MEDIUM\<rparr>"

definition world_three :: world where
  "world_three =
     snd (createTodo task_medium (snd (createTodo task_high (snd (createTodo task_low world0)))))"

definition all_todos :: TodoQueryParams where
  "all_todos =
    \<lparr>q_filter = None, q_sortBy = None, q_sortOrder = None, q_page = None, q_limit = None,
     q_search = None, q_priority = None, q_tags = None\<rparr>"


definition stats_row :: "nat \<Rightarrow> db_row" where
  "stats_row i =
    \<lparr>row_id = lit ''id-'' @ [97 + i], row_title = lit ''Task '' @ [97 + i], row_description = None,
      row_completed = (if i < 23 then 1 else 0), row_priority = MEDIUM, row_due_date = None,
      row_tags = [], row_created_at = 1000 + int i, row_updated_at = 1000 + int i,
      row_completed_at = (if i < 23 then Some 2000 else None)\<rparr>"

definition stats_table :: "db_row list" where
  "stats_table = map stats_row [0..<40]"

definition stats_world :: world where
  "stats_world = world0\<lparr>todos_table := stats_table\<rparr>"

section \<open>Properties of the entity model\<close>

lemma complete_consistent:
  "completion_consistent t \<Longrightarrow> completion_consistent (fst (complete_todo t w))"
  by (simp add: complete_todo_def completion_consistent_def new_Date_def Let_def split: prod.splits)

lemma uncomplete_consistent:
  "completion_consistent t \<Longrightarrow> completion_consistent (fst (uncomplete t w))"
  by (simp add: uncomplete_def completion_consistent_def new_Date_def Let_def split: prod.splits)

lemma toggle_consistent: "completion_consistent (fst (toggle t w))"
  by (simp add: toggle_def completion_consistent_def new_Date_def Let_def split: prod.splits)

lemma update_consistent:
  "completion_consistent t \<Longrightarrow> completion_consistent (fst (update u t w))"
  by (auto simp add: update_def complete_todo_def uncomplete_def completion_consistent_def
        new_Date_def Let_def split: prod.splits option.splits if_splits)

text \<open>
  C1. Each mutation of the entity model keeps the invariant: from a todo in which
  \<open>completed\<close> holds exactly when \<open>completedAt\<close> is present, \<open>toggle\<close>, \<open>complete\<close>,
  \<open>uncomplete\<close> and \<open>update\<close> with any partial argument lead to a todo in which
  \<open>completed\<close> holds exactly when \<open>completedAt\<close> is present, whatever the clock reads.
\<close>

theorem mutations_keep_completion_invariant:
  assumes "completed t \<longleftrightarrow> completedAt t \<noteq> None"
  shows "(completed (fst (toggle t w)) \<longleftrightarrow> completedAt (fst (toggle t w)) \<noteq> None)
       \<and> (completed (fst (complete_todo t w)) \<longleftrightarrow> completedAt (fst (complete_todo t w)) \<noteq> None)
       \<and> (completed (fst (uncomplete t w)) \<longleftrightarrow> completedAt (fst (uncomplete t w)) \<noteq> None)
       \<and> (completed (fst (update u t w)) \<longleftrightarrow> completedAt (fst (update u t w)) \<noteq> None)"
proof -
  from assms have inv: "completion_consistent t"
    by (simp add: completion_consistent_def)
  show ?thesis
    using toggle_consistent [of t w] complete_consistent [OF inv, of w]
      uncomplete_consistent [OF inv, of w] update_consistent [OF inv, of u w]
    by (simp add: completion_consistent_def)
qed

theorem mutations_keep_completion_invariant_witness:
  "(completed todo_done \<longleftrightarrow> completedAt todo_done \<noteq> None)
   \<and> \<not> completed (fst (toggle todo_done world0))
   \<and> completedAt (fst (toggle todo_done world0)) = None
   \<and> completed (fst (update (no_updates\<lparr>p_completed := Some True\<rparr>) todo_active world0))
   \<and> completedAt (fst (update (no_updates\<lparr>p_completed := Some True\<rparr>) todo_active world0))
       = Some (Date_ms 1000)"
proof -
  have h: "completed todo_done \<longleftrightarrow> completedAt todo_done \<noteq> None"
    by (simp add: todo_done_def todo_active_def)
  have t: "completedAt (fst (toggle todo_done world0)) = None"
    by (simp add: toggle_def todo_done_def todo_active_def new_Date_def Let_def split: prod.splits)
  have u: "completedAt (fst (update (no_updates\<lparr>p_completed := Some True\<rparr>) todo_active world0))
             = Some (Date_ms 1000)"
    by (simp add: update_def complete_todo_def no_updates_def todo_active_def world0_def
          new_Date_def Let_def split: prod.splits)
  have a: "completed todo_active \<longleftrightarrow> completedAt todo_active \<noteq> None"
    by (simp add: todo_active_def)
  show ?thesis
    using h t u
      mutations_keep_completion_invariant [OF h, of world0 no_updates]
      mutations_keep_completion_invariant [OF a, of world0 "no_updates\<lparr>p_completed := Some True\<rparr>"]
    by simp
qed

text \<open>
  C10. When the partial argument of \<open>update\<close> has no \<open>completed\<close> field, or one equal to
  the current value, \<open>completedAt\<close> is left as it was: changing the title, the
  description, the priority, the due date or the tags, or sending \<open>completed = true\<close>
  again to a completed todo, neither stamps \<open>completedAt\<close> anew nor clears it.
\<close>

theorem update_keeps_completedAt:
  assumes "p_completed u = None \<or> p_completed u = Some (completed t)"
  shows "completedAt (fst (update u t w)) = completedAt t"
  using assms
  by (auto simp add: update_def new_Date_def Let_def split: prod.splits option.splits)

theorem update_keeps_completedAt_witness:
  "p_completed (no_updates\<lparr>p_completed := Some True, p_title := Some (lit ''Buy bread'')\<rparr>)
     = Some (completed todo_done)
   \<and> completedAt (fst (update (no_updates\<lparr>p_completed := Some True, p_title := Some (lit ''Buy bread'')\<rparr>)
         todo_done world0)) = Some (Date_ms 20)"
proof -
  let ?u = "no_updates\<lparr>p_completed := Some True, p_title := Some (lit ''Buy bread'')\<rparr>"
  have h: "p_completed ?u = Some (completed todo_done)"
    by (simp add: todo_done_def todo_active_def)
  have c: "completedAt todo_done = Some (Date_ms 20)"
    by (simp add: todo_done_def)
  from h have "p_completed ?u = None \<or> p_completed ?u = Some (completed todo_done)" by simp
  from update_keeps_completedAt [OF this, of world0] h c show ?thesis by simp
qed

lemma Todo_create_fields:
  "Todo_create dto w =
    (\<lparr>todo_id = shd (uuids w), title = dto_title dto, description = dto_description dto,
      completed = False,
      priority = (case dto_priority dto of Some p \<Rightarrow> p | None \<Rightarrow> MEDIUM),
      dueDate = dto_dueDate dto,
      tags = (case dto_tags dto of Some ts \<Rightarrow> ts | None \<Rightarrow> []),
      createdAt = Date_ms (shd (clock w)),
      updatedAt = Date_ms (shd (stl (clock w))),
      completedAt = None\<rparr>,
     w\<lparr>clock := stl (stl (clock w)), uuids := stl (uuids w)\<rparr>)"
  by (simp add: Todo_create_def Todo_constructor_def new_Date_def uuidv4_def Let_def)

text \<open>
  C9, as the code has it. A todo created from a title alone is not completed, has
  priority medium and no tags, carries the identifier drawn from the generator, and its
  \<open>createdAt\<close> and \<open>updatedAt\<close> are two successive readings of the clock: they are equal
  exactly when the clock has not advanced between the two readings.
\<close>

theorem create_title_only:
  "completed (fst (Todo_create (title_only s) w)) = False
   \<and> priority (fst (Todo_create (title_only s) w)) = MEDIUM
   \<and> tags (fst (Todo_create (title_only s) w)) = []
   \<and> title (fst (Todo_create (title_only s) w)) = s
   \<and> todo_id (fst (Todo_create (title_only s) w)) = shd (uuids w)
   \<and> createdAt (fst (Todo_create (title_only s) w)) = Date_ms (shd (clock w))
   \<and> updatedAt (fst (Todo_create (title_only s) w)) = Date_ms (shd (stl (clock w)))
   \<and> (createdAt (fst (Todo_create (title_only s) w)) = updatedAt (fst (Todo_create (title_only s) w))
        \<longleftrightarrow> shd (clock w) = shd (stl (clock w)))"
  by (simp add: Todo_create_fields title_only_def)

theorem create_title_only_witness:
  "completed (fst (Todo_create (title_only (lit ''Buy milk'')) (world0\<lparr>clock := sconst 1000\<rparr>))) = False
   \<and> todo_id (fst (Todo_create (title_only (lit ''Buy milk'')) (world0\<lparr>clock := sconst 1000\<rparr>))) = lit ''id-a''
   \<and> createdAt (fst (Todo_create (title_only (lit ''Buy milk'')) (world0\<lparr>clock := sconst 1000\<rparr>)))
     = updatedAt (fst (Todo_create (title_only (lit ''Buy milk'')) (world0\<lparr>clock := sconst 1000\<rparr>)))"
  using create_title_only [of "lit ''Buy milk''" "world0\<lparr>clock := sconst 1000\<rparr>"]
  by (simp add: world0_def lit_def)

text \<open>
  C9, as stated, fails when the clock advances by a millisecond between the two
  readings: \<open>createdAt\<close> is 1000 and \<open>updatedAt\<close> is 1001.
\<close>

theorem created_at_differs: 
  "createdAt (fst (Todo_create (title_only (lit ''Buy milk'')) world0)) \<noteq> updatedAt (fst (Todo_create (title_only (lit ''Buy milk'')) world0))"
  by (simp add: Todo_create_fields world0_def)

section \<open>Creating and fetching\<close>









section \<open>Bulk creation\<close>

lemma forEach_first_failure:
  assumes "\<exists>i<length xs. f (xs ! i) (k + i) \<noteq> Inr ()"
  shows "\<exists>i<length xs. (\<forall>j<i. f (xs ! j) (k + j) = Inr ())
           \<and> f (xs ! i) (k + i) \<noteq> Inr ()
           \<and> forEach f xs k = f (xs ! i) (k + i)"
  using assms
proof (induction xs arbitrary: k)
  case Nil
  then show ?case by simp
next
  case (Cons x xs)
  show ?case
  proof (cases "f x k")
    case (Inl e)
    then have "(\<forall>j<0. f ((x # xs) ! j) (k + j) = Inr ())
        \<and> f ((x # xs) ! 0) (k + 0) \<noteq> Inr () \<and> forEach f (x # xs) k = f ((x # xs) ! 0) (k + 0)"
      by simp
    then show ?thesis by blast
  next
    case (Inr u)
    from Cons.prems obtain i where i: "i < length (x # xs)" "f ((x # xs) ! i) (k + i) \<noteq> Inr ()"
      by blast
    with Inr have "i \<noteq> 0" by (cases i) auto
    then obtain i' where i': "i = Suc i'" by (cases i) auto
    with i have "\<exists>i<length xs. f (xs ! i) (Suc k + i) \<noteq> Inr ()"
      by auto
    from Cons.IH [OF this] obtain m where m: "m < length xs"
      "\<forall>j<m. f (xs ! j) (Suc k + j) = Inr ()"
      "f (xs ! m) (Suc k + m) \<noteq> Inr ()"
      "forEach f xs (Suc k) = f (xs ! m) (Suc k + m)"
      by blast
    have "\<forall>j<Suc m. f ((x # xs) ! j) (k + j) = Inr ()"
    proof (intro allI impI)
      fix j assume "j < Suc m"
      then show "f ((x # xs) ! j) (k + j) = Inr ()"
        using Inr m(2) by (cases j) auto
    qed
    moreover have "f ((x # xs) ! Suc m) (k + Suc m) \<noteq> Inr ()"
      using m(3) by simp
    moreover have "forEach f (x # xs) k = f ((x # xs) ! Suc m) (k + Suc m)"
      using Inr m(4) by simp
    moreover have "Suc m < length (x # xs)" using m(1) by simp
    ultimately show ?thesis by blast
  qed
qed

lemmas validation_defs =
  validateCreateTodoDto_def and_then_def validate_title_def
  validate_description_def validate_tags_def validate_dueDate_def trim_def lit_def
  is_white_space_def titleRegex_test_def title_character_def title_only_def

lemma validate_buy_milk: "validateCreateTodoDto buy_milk = Inr ()"
  by (simp add: validation_defs buy_milk_def)

lemma validate_walk_dog: "validateCreateTodoDto walk_dog = Inr ()"
  by (simp add: validation_defs walk_dog_def)

lemma validate_short_title:
  "validateCreateTodoDto short_title
     = Inl (ValidationError Title_too_short
             [(''field'', JStr (lit ''title'')), (''minLength'', JNum 3), (''provided'', JNum 2)])"
  by (simp add: validation_defs short_title_def)

text \<open>
  C2, as the code has it. \<open>bulkCreate\<close> validates before it persists: for every list with
  an invalid element the call throws and leaves the table, the clock and the generator as
  they were. A list of more than 100 elements is refused for its size, with an error that
  names no index; a list of at most 100 elements is refused with the error that carries
  the index of the first element that fails validation, and the message of that failure.
\<close>

theorem bulkCreate_rejects_invalid_batch:
  assumes "\<exists>d\<in>set ds. validateCreateTodoDto d \<noteq> Inr ()"
  shows "snd (bulkCreate \<lparr>todos = ds\<rparr> w) = w
    \<and> (100 < length ds \<longrightarrow>
          fst (bulkCreate \<lparr>todos = ds\<rparr> w)
            = Inl (ValidationError Todos_too_many
                    [(''provided'', JNum (int (length ds))), (''max'', JNum 100)]))
    \<and> (length ds \<le> 100 \<longrightarrow>
          (\<exists>i<length ds. \<exists>e. (\<forall>j<i. validateCreateTodoDto (ds ! j) = Inr ())
             \<and> validateCreateTodoDto (ds ! i) = Inl e
             \<and> fst (bulkCreate \<lparr>todos = ds\<rparr> w)
                 = Inl (ValidationError (Todo_invalid_at i)
                         [(''index'', JNum (int i)), (''error'', JMsg (error_message e))])))"
proof -
  let ?f = "\<lambda>todoDto index.
                 case validateCreateTodoDto todoDto of
                   Inl e \<Rightarrow> Inl (ValidationError (Todo_invalid_at index)
                                   [(''index'', JNum (int index)), (''error'', JMsg (error_message e))])
                 | Inr u \<Rightarrow> Inr ()"
  have f_iff: "?f d i = Inr () \<longleftrightarrow> validateCreateTodoDto d = Inr ()" for d i
    by (cases "validateCreateTodoDto d") auto
  from assms obtain n where n: "n < length ds" "validateCreateTodoDto (ds ! n) \<noteq> Inr ()"
    by (auto simp add: in_set_conv_nth)
  then have "\<exists>i<length ds. ?f (ds ! i) (0 + i) \<noteq> Inr ()"
    using f_iff by blast
  from forEach_first_failure [OF this] obtain i where i: "i < length ds"
    "\<forall>j<i. ?f (ds ! j) (0 + j) = Inr ()" "?f (ds ! i) (0 + i) \<noteq> Inr ()"
    "forEach ?f ds 0 = ?f (ds ! i) (0 + i)"
    by blast
  from i(2) have before: "\<forall>j<i. validateCreateTodoDto (ds ! j) = Inr ()"
    using f_iff by blast
  from i(3) obtain e where bad: "validateCreateTodoDto (ds ! i) = Inl e"
    by (cases "validateCreateTodoDto (ds ! i)") auto
  from i(4) bad have loop: "forEach ?f ds 0
      = Inl (ValidationError (Todo_invalid_at i)
              [(''index'', JNum (int i)), (''error'', JMsg (error_message e))])"
    by simp
  from n have nonempty: "length ds \<noteq> 0" by auto
  have unchanged: "snd (bulkCreate \<lparr>todos = ds\<rparr> w) = w"
    using nonempty loop by (simp add: bulkCreate_def)
  have many: "100 < length ds \<longrightarrow>
          fst (bulkCreate \<lparr>todos = ds\<rparr> w)
            = Inl (ValidationError Todos_too_many
                    [(''provided'', JNum (int (length ds))), (''max'', JNum 100)])"
    by (simp add: bulkCreate_def)
  have few: "length ds \<le> 100 \<longrightarrow> fst (bulkCreate \<lparr>todos = ds\<rparr> w)
      = Inl (ValidationError (Todo_invalid_at i)
              [(''index'', JNum (int i)), (''error'', JMsg (error_message e))])"
    using nonempty loop by (simp add: bulkCreate_def)
  from unchanged many few i(1) before bad show ?thesis by blast
qed

theorem bulkCreate_rejects_invalid_batch_witness:
  "bulkCreate \<lparr>todos = [buy_milk, walk_dog, short_title]\<rparr> world0
     = (Inl (ValidationError (Todo_invalid_at 2)
               [(''index'', JNum 2), (''error'', JMsg Title_too_short)]), world0)"
proof -
  have h: "\<exists>d\<in>set [buy_milk, walk_dog, short_title]. validateCreateTodoDto d \<noteq> Inr ()"
    by (simp add: validate_short_title)
  have r: "fst (bulkCreate \<lparr>todos = [buy_milk, walk_dog, short_title]\<rparr> world0)
     = Inl (ValidationError (Todo_invalid_at 2)
               [(''index'', JNum 2), (''error'', JMsg Title_too_short)])"
    by (simp add: bulkCreate_def validate_buy_milk validate_walk_dog validate_short_title)
  from bulkCreate_rejects_invalid_batch [OF h, of world0] r show ?thesis
    by (simp add: prod_eq_iff)
qed

text \<open>
  C2, as stated, fails for a list of 101 entries with the title \<open>ab\<close>: every element is
  invalid, and the error is the one about the size of the batch, which names no index.
\<close>

theorem bulkCreate_oversized_batch:
  "validateCreateTodoDto short_title \<noteq> Inr ()
   \<and> bulkCreate \<lparr>todos = replicate 101 short_title\<rparr> world0
     = (Inl (ValidationError Todos_too_many [(''provided'', JNum 101), (''max'', JNum 100)]), world0)"
  by (simp add: bulkCreate_def validate_short_title)

section \<open>Double precision\<close>

text \<open>
  The exponent that \<open>binary_exponent\<close> computes is the right one, rounding to a double
  keeps a quotient of integers on its side of every integer, and so the exact ceiling in
  \<open>Math_ceil_quotient\<close> is the ceiling of the double that the division yields, for
  every count below \<open>2^53\<close>.
\<close>

lemma binary_exponent_bounds:
  assumes "0 < q"
  shows "power_int 2 (binary_exponent q) \<le> q" and "q < power_int 2 (binary_exponent q + 1)"
proof -
  obtain a b where ab: "quotient_of q = (a, b)" by (cases "quotient_of q")
  then have b: "0 < b" and q: "q = of_int a / of_int b"
    by (simp_all add: quotient_of_denom_pos quotient_of_div)
  with assms have a: "0 < a"
    by (simp add: zero_less_divide_iff)
  define d where "d = bitlen a - bitlen b"
  from bitlen_bounds [OF a] have a_lo: "2 ^ nat (bitlen a - 1) \<le> a" and a_hi: "a < 2 ^ nat (bitlen a)"
    by simp_all
  from bitlen_bounds [OF b] have b_lo: "2 ^ nat (bitlen b - 1) \<le> b" and b_hi: "b < 2 ^ nat (bitlen b)"
    by simp_all
  have la: "1 \<le> bitlen a" using a by (simp add: bitlen_alt_def)
  have lb: "1 \<le> bitlen b" using b by (simp add: bitlen_alt_def)
  have ra_hi: "(of_int a :: rat) < power_int 2 (bitlen a)"
  proof -
    have "(of_int a :: rat) < of_int (2 ^ nat (bitlen a))" using a_hi by (simp only: of_int_less_iff)
    then show ?thesis using la by (simp add: power_int_nonneg_exp)
  qed
  have ra_lo: "power_int 2 (bitlen a - 1) \<le> (of_int a :: rat)"
  proof -
    have "(of_int (2 ^ nat (bitlen a - 1)) :: rat) \<le> of_int a" using a_lo by (simp only: of_int_le_iff)
    then show ?thesis using la by (simp add: power_int_nonneg_exp)
  qed
  have rb_hi: "(of_int b :: rat) < power_int 2 (bitlen b)"
  proof -
    have "(of_int b :: rat) < of_int (2 ^ nat (bitlen b))" using b_hi by (simp only: of_int_less_iff)
    then show ?thesis using lb by (simp add: power_int_nonneg_exp)
  qed
  have rb_lo: "power_int 2 (bitlen b - 1) \<le> (of_int b :: rat)"
  proof -
    have "(of_int (2 ^ nat (bitlen b - 1)) :: rat) \<le> of_int b" using b_lo by (simp only: of_int_le_iff)
    then show ?thesis using lb by (simp add: power_int_nonneg_exp)
  qed
  have bpos: "(0::rat) < of_int b" using b by simp
  have upper: "q < power_int 2 (d + 1)"
  proof -
    have "power_int (2::rat) (d + 1) * power_int 2 (bitlen b - 1) = power_int 2 (bitlen a)"
      by (simp add: d_def flip: power_int_add)
    then have "of_int a < power_int (2::rat) (d + 1) * power_int 2 (bitlen b - 1)"
      using ra_hi by simp
    also have "\<dots> \<le> power_int (2::rat) (d + 1) * of_int b"
      using rb_lo by (intro mult_left_mono) simp_all
    finally show ?thesis
      using bpos by (simp add: q pos_divide_less_eq)
  qed
  have lower: "power_int 2 (d - 1) < q"
  proof -
    have "power_int (2::rat) (d - 1) * power_int 2 (bitlen b) = power_int 2 (bitlen a - 1)"
      by (simp add: d_def flip: power_int_add)
    moreover have "power_int (2::rat) (d - 1) * of_int b < power_int (2::rat) (d - 1) * power_int 2 (bitlen b)"
      using rb_hi by (intro mult_strict_left_mono) simp_all
    ultimately have "power_int (2::rat) (d - 1) * of_int b < of_int a"
      using ra_lo by simp
    then show ?thesis
      using bpos by (simp add: q pos_less_divide_eq)
  qed
  have e: "binary_exponent q = (if power_int 2 d \<le> q then d else d - 1)"
    by (simp add: binary_exponent_def ab d_def)
  show "power_int 2 (binary_exponent q) \<le> q"
    using lower by (simp add: e)
  show "q < power_int 2 (binary_exponent q + 1)"
    using upper by (auto simp add: e)
qed

lemma round_half_even_le:
  assumes "y \<le> of_int m"
  shows "round_half_even y \<le> m"
proof -
  have f: "\<lfloor>y\<rfloor> \<le> m" using assms by (simp add: floor_le_iff)
  show ?thesis
  proof (cases "y = of_int \<lfloor>y\<rfloor>")
    case True
    then have "y - of_int \<lfloor>y\<rfloor> = 0" by simp
    then show ?thesis using f by (simp add: round_half_even_def Let_def)
  next
    case False
    then have "of_int \<lfloor>y\<rfloor> < y" using of_int_floor_le [of y] by linarith
    with assms have "of_int \<lfloor>y\<rfloor> < (of_int m :: rat)" by linarith
    then have "\<lfloor>y\<rfloor> < m" by (simp only: of_int_less_iff)
    then show ?thesis by (simp add: round_half_even_def Let_def)
  qed
qed

lemma round_half_even_ge:
  assumes "of_int m \<le> y"
  shows "m \<le> round_half_even y"
proof -
  have "m \<le> \<lfloor>y\<rfloor>" using assms by (simp add: le_floor_iff)
  then show ?thesis by (simp add: round_half_even_def Let_def)
qed

lemma round_half_even_above:
  assumes "of_int m + 1 / 2 < y"
  shows "m + 1 \<le> round_half_even y"
proof -
  have m: "m \<le> \<lfloor>y\<rfloor>" using assms by (simp add: le_floor_iff)
  show ?thesis
  proof (cases "m = \<lfloor>y\<rfloor>")
    case True
    with assms have "1 / 2 < y - of_int \<lfloor>y\<rfloor>" by simp
    then show ?thesis using True by (simp add: round_half_even_def Let_def)
  next
    case False
    with m have "m + 1 \<le> \<lfloor>y\<rfloor>" by simp
    then show ?thesis by (simp add: round_half_even_def Let_def)
  qed
qed

lemma round_half_even_below:
  assumes "y < of_int m - 1 / 2"
  shows "round_half_even y \<le> m - 1"
proof -
  have "y < of_int m" using assms by linarith
  then have f: "\<lfloor>y\<rfloor> \<le> m - 1" by (simp add: floor_less_iff)
  show ?thesis
  proof (cases "\<lfloor>y\<rfloor> = m - 1")
    case True
    with assms have "y - of_int \<lfloor>y\<rfloor> < 1 / 2" by simp
    then show ?thesis using True by (simp add: round_half_even_def Let_def)
  next
    case False
    with f have "\<lfloor>y\<rfloor> + 1 \<le> m - 1" by simp
    then show ?thesis by (simp add: round_half_even_def Let_def)
  qed
qed

lemma quotient_plus_one:
  fixes c m :: int
  assumes "c \<noteq> 0"
  shows "(of_int (m * c + 1) :: rat) / of_int c = of_int m + 1 / of_int c"
  using assms by (simp add: add_divide_distrib)

lemma quotient_minus_one:
  fixes c m :: int
  assumes "c \<noteq> 0"
  shows "(of_int (m * c - 1) :: rat) / of_int c = of_int m - 1 / of_int c"
  using assms by (simp add: diff_divide_distrib)

lemma to_double_positive_quotient:
  fixes a c m :: int
  assumes a: "1 \<le> a" "a < 2 ^ 53" and c: "1 \<le> c"
  defines "y \<equiv> (of_int a / of_int c :: rat)"
  shows "of_int m \<le> y \<Longrightarrow> of_int m \<le> to_double y"
    and "y \<le> of_int m \<Longrightarrow> to_double y \<le> of_int m"
    and "of_int m < y \<Longrightarrow> of_int m < to_double y"
    and "y < of_int m \<Longrightarrow> to_double y < of_int m"
proof -
  have cpos: "(0::rat) < of_int c" using c by simp
  have ypos: "0 < y" using a c by (simp add: y_def)
  define e where "e = binary_exponent y"
  from binary_exponent_bounds [OF ypos] have e_lo: "power_int 2 e \<le> y"
    by (simp add: e_def)
  have "y \<le> of_int a"
  proof -
    have "(of_int a :: rat) * 1 \<le> of_int a * of_int c"
      using a c by (intro mult_left_mono) simp_all
    then show ?thesis using cpos by (simp add: y_def pos_divide_le_eq)
  qed
  also have "(of_int a :: rat) < of_int (2 ^ 53)"
    using a(2) by (simp only: of_int_less_iff)
  finally have "y < power_int 2 53" by simp
  with e_lo have "power_int (2::rat) e < power_int 2 53" by linarith
  then have "e < 53" by (rule power_int_le_imp_less_exp [rotated]) simp_all
  define k where "k = nat (52 - e)"
  define K :: int where "K = 2 ^ k"
  have Kpos: "0 < K" by (simp add: K_def)
  have rK: "(of_int K :: rat) = power_int 2 (52 - e)"
    using \<open>e < 53\<close> by (simp add: K_def k_def power_int_nonneg_exp)
  have rKpos: "(0::rat) < of_int K" using Kpos by simp
  have ulp: "power_int (2::rat) (e - 52) = 1 / of_int K"
  proof -
    have "power_int (2::rat) (e - 52) * power_int 2 (52 - e) = 1"
      by (simp flip: power_int_add)
    then show ?thesis using rKpos by (simp add: rK field_simps)
  qed
  have td: "to_double y = of_int (round_half_even (y * of_int K)) / of_int K"
    using ypos by (simp add: to_double_def Let_def e_def [symmetric] ulp)
  have c2K: "c < 2 * K"
  proof -
    have "power_int (2::rat) e * of_int c \<le> of_int a"
      using e_lo cpos by (simp add: y_def pos_le_divide_eq)
    also have "(of_int a :: rat) < of_int (2 ^ 53)"
      using a(2) by (simp only: of_int_less_iff)
    finally have h1: "power_int (2::rat) e * of_int c < 2 ^ 53" by simp
    have h2: "power_int (2::rat) e * of_int K = 2 ^ 52"
      by (simp add: rK flip: power_int_add)
    have "power_int (2::rat) e * (2 * of_int K) = 2 * (power_int 2 e * of_int K)"
      by (simp only: mult.left_commute)
    also have "\<dots> = 2 ^ 53" by (simp only: h2) simp
    finally have eq: "power_int (2::rat) e * (2 * of_int K) = 2 ^ 53" .
    have "power_int (2::rat) e * of_int c < power_int 2 e * (2 * of_int K)"
      unfolding eq by (rule h1)
    moreover have "(0::rat) < power_int 2 e" by (simp add: zero_less_power_int)
    ultimately have "(of_int c :: rat) < 2 * of_int K"
      by (simp only: mult_less_cancel_left_pos)
    then have "(of_int c :: rat) < of_int (2 * K)" by simp
    then show ?thesis by (simp only: of_int_less_iff)
  qed
  have half: "1 / 2 < (of_int K :: rat) / of_int c"
  proof -
    from c2K have "(of_int c :: rat) < of_int (2 * K)" by (simp only: of_int_less_iff)
    then show ?thesis using cpos by (simp add: pos_less_divide_eq)
  qed
  show "of_int m \<le> to_double y" if "of_int m \<le> y"
  proof -
    from that rKpos have "of_int (m * K) \<le> y * of_int K" by simp
    then have "m * K \<le> round_half_even (y * of_int K)" by (rule round_half_even_ge)
    then have "(of_int (m * K) :: rat) \<le> of_int (round_half_even (y * of_int K))"
      by (simp only: of_int_le_iff)
    then show ?thesis using rKpos by (simp add: td pos_le_divide_eq)
  qed
  show "to_double y \<le> of_int m" if "y \<le> of_int m"
  proof -
    from that rKpos have "y * of_int K \<le> of_int (m * K)" by simp
    then have "round_half_even (y * of_int K) \<le> m * K" by (rule round_half_even_le)
    then have "(of_int (round_half_even (y * of_int K)) :: rat) \<le> of_int (m * K)"
      by (simp only: of_int_le_iff)
    then show ?thesis using rKpos by (simp add: td pos_divide_le_eq)
  qed
  show "of_int m < to_double y" if "of_int m < y"
  proof -
    from that cpos have "(of_int (m * c) :: rat) < of_int a"
      by (simp add: y_def pos_less_divide_eq)
    then have "m * c < a" by (simp only: of_int_less_iff)
    then have "m * c + 1 \<le> a" by simp
    then have "(of_int (m * c + 1) :: rat) \<le> of_int a" by (simp only: of_int_le_iff)
    then have "(of_int (m * c + 1) :: rat) / of_int c \<le> of_int a / of_int c"
      using cpos by (intro divide_right_mono) simp_all
    then have "of_int m + 1 / of_int c \<le> y"
      using c by (simp only: quotient_plus_one y_def, simp?)
    then have "(of_int m + 1 / of_int c) * of_int K \<le> y * of_int K"
      using rKpos by (simp add: mult_le_cancel_right)
    then have "of_int (m * K) + of_int K / of_int c \<le> y * of_int K"
      by (simp add: algebra_simps)
    with half have "of_int (m * K) + 1 / 2 < y * of_int K" by linarith
    then have "m * K + 1 \<le> round_half_even (y * of_int K)" by (rule round_half_even_above)
    then have "(of_int (m * K + 1) :: rat) \<le> of_int (round_half_even (y * of_int K))"
      by (simp only: of_int_le_iff)
    then have "(of_int (m * K + 1) :: rat) / of_int K
        \<le> of_int (round_half_even (y * of_int K)) / of_int K"
      using rKpos by (intro divide_right_mono) simp_all
    then have "of_int m + 1 / of_int K \<le> to_double y"
      using Kpos by (simp only: quotient_plus_one td, simp?)
    moreover have "(0::rat) < 1 / of_int K" using rKpos by simp
    ultimately show ?thesis by linarith
  qed
  show "to_double y < of_int m" if "y < of_int m"
  proof -
    from that cpos have "(of_int a :: rat) < of_int (m * c)"
      by (simp add: y_def pos_divide_less_eq)
    then have "a < m * c" by (simp only: of_int_less_iff)
    then have "a \<le> m * c - 1" by simp
    then have "(of_int a :: rat) \<le> of_int (m * c - 1)" by (simp only: of_int_le_iff)
    then have "(of_int a :: rat) / of_int c \<le> of_int (m * c - 1) / of_int c"
      using cpos by (intro divide_right_mono) simp_all
    then have "y \<le> of_int m - 1 / of_int c"
      using c by (simp only: quotient_minus_one y_def, simp?)
    then have "y * of_int K \<le> (of_int m - 1 / of_int c) * of_int K"
      using rKpos by (simp add: mult_le_cancel_right)
    then have "y * of_int K \<le> of_int (m * K) - of_int K / of_int c"
      by (simp add: algebra_simps)
    with half have "y * of_int K < of_int (m * K) - 1 / 2" by linarith
    then have "round_half_even (y * of_int K) \<le> m * K - 1" by (rule round_half_even_below)
    then have "(of_int (round_half_even (y * of_int K)) :: rat) \<le> of_int (m * K - 1)"
      by (simp only: of_int_le_iff)
    then have "(of_int (round_half_even (y * of_int K)) :: rat) / of_int K
        \<le> of_int (m * K - 1) / of_int K"
      using rKpos by (intro divide_right_mono) simp_all
    then have "to_double y \<le> of_int m - 1 / of_int K"
      using Kpos by (simp only: quotient_minus_one td, simp?)
    moreover have "(0::rat) < 1 / of_int K" using rKpos by simp
    ultimately show ?thesis by linarith
  qed
qed

lemma to_double_minus: "to_double (- q) = - to_double q"
  by (simp add: to_double_def Let_def)

lemma ceiling_to_double_quotient:
  fixes a b :: int
  assumes "0 \<le> a" and "a < 2 ^ 53" and "b \<noteq> 0"
  shows "\<lceil>to_double (of_int a / of_int b)\<rceil> = \<lceil>(of_int a / of_int b :: rat)\<rceil>"
proof (cases "a = 0")
  case True
  then show ?thesis by (simp add: to_double_def)
next
  case False
  with assms(1) have a: "1 \<le> a" by simp
  show ?thesis
  proof (cases "0 < b")
    case True
    then have b: "1 \<le> b" by simp
    let ?y = "(of_int a / of_int b :: rat)"
    have "of_int (\<lceil>?y\<rceil> - 1) < ?y" using ceiling_correct [of ?y] by simp
    then have lo: "of_int (\<lceil>?y\<rceil> - 1) < to_double ?y"
      by (rule to_double_positive_quotient(3) [OF a assms(2) b])
    have "?y \<le> of_int \<lceil>?y\<rceil>" by (rule le_of_int_ceiling)
    then have hi: "to_double ?y \<le> of_int \<lceil>?y\<rceil>"
      by (rule to_double_positive_quotient(2) [OF a assms(2) b])
    from lo hi show ?thesis
      by (intro ceiling_unique) simp_all
  next
    case False
    with assms(3) have b: "1 \<le> - b" by simp
    let ?y = "(of_int a / of_int (- b) :: rat)"
    have neg: "(of_int a / of_int b :: rat) = - ?y" by simp
    have "of_int \<lfloor>?y\<rfloor> \<le> ?y" by (rule of_int_floor_le)
    then have lo: "of_int \<lfloor>?y\<rfloor> \<le> to_double ?y"
      by (rule to_double_positive_quotient(1) [OF a assms(2) b])
    have "?y < of_int (\<lfloor>?y\<rfloor> + 1)" using floor_correct [of ?y] by simp
    then have hi: "to_double ?y < of_int (\<lfloor>?y\<rfloor> + 1)"
      by (rule to_double_positive_quotient(4) [OF a assms(2) b])
    from lo hi have "\<lfloor>to_double ?y\<rfloor> = \<lfloor>?y\<rfloor>"
      by (intro floor_unique) simp_all
    then show ?thesis
      by (simp only: neg to_double_minus ceiling_minus)
  qed
qed

lemma Math_ceil_quotient_double:
  assumes "0 \<le> a" and "a < 2 ^ 53" and "b \<noteq> 0"
  shows "Math_ceil_quotient a b = Num \<lceil>double_div (of_int a) (of_int b)\<rceil>"
proof -
  have "\<lceil>real_of_int a / real_of_int b\<rceil> = \<lceil>(of_int a / of_int b :: rat)\<rceil>"
    by (simp only: ceiling_divide_eq_div)
  with assms(3) ceiling_to_double_quotient [OF assms] show ?thesis
    by (simp add: Math_ceil_quotient_def double_div_def)
qed

text \<open>
  The integers below \<open>2^53\<close> in absolute value are doubles, and so is the offset
  \<open>(page - 1) * limit\<close> when the page before and the product are among them.
\<close>

lemma to_double_of_int:
  assumes "\<bar>n\<bar> < 2 ^ 53"
  shows "to_double (of_int n) = of_int n"
proof -
  have pos: "to_double (of_int m) = of_int m" if m: "1 \<le> m" "m < 2 ^ 53" for m :: int
  proof -
    have y: "(of_int m / of_int 1 :: rat) = of_int m" by simp
    have "of_int m \<le> to_double (of_int m / of_int 1)"
      by (rule to_double_positive_quotient(1) [OF m]) simp_all
    moreover have "to_double (of_int m / of_int 1) \<le> of_int m"
      by (rule to_double_positive_quotient(2) [OF m]) simp_all
    ultimately show ?thesis by (simp only: y)
  qed
  consider "n = 0" | "1 \<le> n" | "1 \<le> - n" by linarith
  then show ?thesis
  proof cases
    case 1
    then show ?thesis by (simp add: to_double_def)
  next
    case 2
    with assms show ?thesis by (intro pos) simp_all
  next
    case 3
    with assms have "to_double (of_int (- n)) = of_int (- n)" by (intro pos) simp_all
    then have "to_double (- of_int n) = - of_int n" by simp
    then show ?thesis by (simp add: to_double_minus)
  qed
qed

lemma offset_number_exact:
  assumes "\<bar>pg - 1\<bar> < 2 ^ 53" and "\<bar>(pg - 1) * l\<bar> < 2 ^ 53"
  shows "offset_number pg l = of_int ((pg - 1) * l)"
proof -
  have "double_sub (of_int pg) 1 = of_int (pg - 1)"
    using to_double_of_int [OF assms(1)] by (simp add: double_sub_def)
  then show ?thesis
    using to_double_of_int [OF assms(2)] by (simp add: offset_number_def double_mul_def)
qed

section \<open>Queries\<close>

text \<open>
  When \<open>findAll\<close> returns. A query with safe paging binds the limit and the offset it
  was given, and a query whose patterns fit meets no refusal of LIKE; a query with both
  properties returns. The data of a result are the converted rows of the SELECT.
\<close>

lemma must_be_int_of_int:
  assumes "- (2 ^ 63) < k" and "k < 2 ^ 63"
  shows "must_be_int (of_int k) = Inr k"
proof -
  have "(of_int (- (2 ^ 63)) :: rat) < of_int k"
    using assms(1) by (simp only: of_int_less_iff)
  then have lo: "- (2 ^ 63) < (of_int k :: rat)" by simp
  have "(of_int k :: rat) < of_int (2 ^ 63)"
    using assms(2) by (simp only: of_int_less_iff)
  then have hi: "(of_int k :: rat) < 2 ^ 63" by simp
  from lo hi show ?thesis by (simp add: must_be_int_def)
qed

lemma bound_paging_safe:
  assumes "safe_paging p"
    and "pg = (case q_page p of Some x \<Rightarrow> x | None \<Rightarrow> 1)"
    and "l = (case q_limit p of Some x \<Rightarrow> x | None \<Rightarrow> 50)"
  shows "bound_paging p = Inr (l, (pg - 1) * l)"
proof -
  from assms have l: "\<bar>l\<bar> < 2 ^ 53" and a: "\<bar>pg - 1\<bar> < 2 ^ 53" and b: "\<bar>(pg - 1) * l\<bar> < 2 ^ 53"
    by (simp_all add: safe_paging_def Let_def)
  from l have "must_be_int (of_int l) = Inr l"
    by (intro must_be_int_of_int) simp_all
  moreover from b have "must_be_int (of_int ((pg - 1) * l)) = Inr ((pg - 1) * l)"
    by (intro must_be_int_of_int) simp_all
  ultimately show ?thesis
    using offset_number_exact [OF a b]
    by (simp add: bound_paging_def Let_def assms(2) [symmetric] assms(3) [symmetric])
qed

lemma tag_tests_pass:
  "list_all (\<lambda>tag. \<not> pattern_too_long ([37, 34] @ tag @ [34, 37])) tgs \<Longrightarrow> \<not> tag_tests_fail tgs x"
  by (induction tgs) simp_all

lemma patterns_fit_where_clause:
  assumes "patterns_fit p"
  shows "\<not> where_clause_fails p r"
proof -
  from assms have t: "\<not> tags_condition_fails p r"
    by (auto simp add: patterns_fit_def tags_condition_fails_def tag_tests_pass
        split: option.splits)
  from assms have s: "q_search p = Some x \<Longrightarrow> \<not> pattern_too_long ([37] @ trim x @ [37])" for x
    by (simp add: patterns_fit_def)
  show ?thesis
  proof (cases "q_search p")
    case None
    with t show ?thesis by (simp add: where_clause_fails_def)
  next
    case (Some x)
    with t s [OF Some] show ?thesis by (simp add: where_clause_fails_def Let_def)
  qed
qed

lemma patterns_fit_table:
  assumes "patterns_fit p"
  shows "\<not> list_ex (where_clause_fails p) table"
  using patterns_fit_where_clause [OF assms] by (simp add: list_ex_iff)

lemma findAll_fails:
  assumes "list_ex (where_clause_fails p) (todos_table w)"
  shows "findAll p w = (Inl (SqliteError Like_pattern_too_complex), w)"
  using assms by (simp add: findAll_def Let_def)

lemma findAll_Inl:
  assumes "\<not> list_ex (where_clause_fails p) (todos_table w)" and "bound_paging p = Inl e"
  shows "findAll p w = (Inl e, w)"
  using assms by (simp add: findAll_def Let_def)

lemma findAll_Inr:
  assumes "\<not> list_ex (where_clause_fails p) (todos_table w)" and "bound_paging p = Inr (l, k)"
  shows "fst (findAll p w)
    = Inr \<lparr>data = fst (map_world row_to_json (selected_rows p l k (todos_table w)) w),
           meta = \<lparr>currentPage = (case q_page p of Some x \<Rightarrow> x | None \<Rightarrow> 1),
                   totalPages = Math_ceil_quotient (int (length (filter (where_clause p) (todos_table w))))
                                  (case q_limit p of Some x \<Rightarrow> x | None \<Rightarrow> 50),
                   totalItems = int (length (filter (where_clause p) (todos_table w))),
                   itemsPerPage = (case q_limit p of Some x \<Rightarrow> x | None \<Rightarrow> 50),
                   hasNextPage = js_less (case q_page p of Some x \<Rightarrow> x | None \<Rightarrow> 1)
                       (Math_ceil_quotient (int (length (filter (where_clause p) (todos_table w))))
                                  (case q_limit p of Some x \<Rightarrow> x | None \<Rightarrow> 50)),
                   hasPreviousPage = (1 < (case q_page p of Some x \<Rightarrow> x | None \<Rightarrow> 1))\<rparr>\<rparr>"
  using assms by (simp add: findAll_def Let_def case_prod_beta)

lemma findAll_data:
  assumes "fst (findAll p w) = Inr res"
  shows "\<exists>l k. bound_paging p = Inr (l, k)
           \<and> data res = fst (map_world row_to_json (selected_rows p l k (todos_table w)) w)"
proof (cases "list_ex (where_clause_fails p) (todos_table w)")
  case True
  with assms show ?thesis by (simp add: findAll_fails)
next
  case nf: False
  show ?thesis
  proof (cases "bound_paging p")
    case (Inl e)
    with assms nf show ?thesis by (simp add: findAll_Inl)
  next
    case (Inr lk)
    then obtain l k where lk: "bound_paging p = Inr (l, k)" by (cases lk) auto
    from findAll_Inr [OF nf lk] assms
    have "data res = fst (map_world row_to_json (selected_rows p l k (todos_table w)) w)"
      by auto
    with lk show ?thesis by blast
  qed
qed

lemma length_map_world: "length (fst (map_world f xs w)) = length xs"
  by (induction xs arbitrary: w) (simp_all add: Let_def case_prod_beta)



lemma row_to_json_title: "title (fst (row_to_json r w)) = row_title r"
  by (simp add: row_to_json_def fromDatabase_def Todo_constructor_def toJSON_def Let_def
      case_prod_beta)

lemma map_world_title:
  "map title (fst (map_world row_to_json rows w)) = map row_title rows"
  by (induction rows arbitrary: w) (simp_all add: Let_def case_prod_beta row_to_json_title)









lemma validate_three:
  "validateCreateTodoDto task_low = Inr ()"
  "validateCreateTodoDto task_high = Inr ()"
  "validateCreateTodoDto task_medium = Inr ()"
  by (simp_all add: validation_defs task_low_def task_high_def task_medium_def)

lemma createTodo_valid:
  "validateCreateTodoDto dto = Inr () \<Longrightarrow>
     createTodo dto w = repository_create (fst (Todo_create dto w)) (snd (Todo_create dto w))"
  by (simp add: createTodo_def case_prod_beta)

lemma world_three_table:
  "todos_table world_three =
    [\<lparr>row_id = lit ''id-a'', row_title = lit ''Water plants'', row_description = None,
      row_completed = 0, row_priority = LOW, row_due_date = None, row_tags = [],
      row_created_at = 1000, row_updated_at = 1001, row_completed_at = None\<rparr>,
     \<lparr>row_id = lit ''id-b'', row_title = lit ''Pay rent'', row_description = None,
      row_completed = 0, row_priority = HIGH, row_due_date = None, row_tags = [],
      row_created_at = 1002, row_updated_at = 1003, row_completed_at = None\<rparr>,
     \<lparr>row_id = lit ''id-c'', row_title = lit ''Call Ana'', row_description = None,
      row_completed = 0, row_priority = MEDIUM, row_due_date = None, row_tags = [],
      row_created_at = 1004, row_updated_at = 1005, row_completed_at = None\<rparr>]"
  unfolding world_three_def
  by (simp add: createTodo_valid validate_three Todo_create_fields)
     (simp add: repository_create_def toDatabase_def toISOString_def toISOString_opt_def
       run_insert_def task_low_def task_high_def task_medium_def title_only_def world0_def lit_def)


lemma patterns_fit_plain:
  assumes "q_search p = None" and "q_tags p = None"
  shows "patterns_fit p"
  using assms by (simp add: patterns_fit_def)

lemma all_todos_fit:
  "patterns_fit (all_todos\<lparr>q_sortBy := f, q_sortOrder := d\<rparr>)"
  "patterns_fit (all_todos\<lparr>q_page := pg, q_limit := l\<rparr>)"
  "patterns_fit all_todos"
  by (rule patterns_fit_plain; simp add: all_todos_def)+














lemma patterns_fit_paging:
  "patterns_fit (p\<lparr>q_page := pg, q_limit := l\<rparr>) = patterns_fit p"
  by (simp add: patterns_fit_def)

text \<open>
  Away from zero the checks of \<open>getAllTodos\<close> do what their messages say: a negative
  page, a negative limit and a limit above 100 are refused, and nothing is read or
  written.
\<close>

lemma getAllTodos_rejects_negative_page:
  assumes "q_page p = Some pg" and "pg < 0"
  shows "getAllTodos p w
    = (Inl (ValidationError Page_too_small [(''field'', JStr (lit ''page'')), (''value'', JNum pg)]), w)"
  using assms by (simp add: getAllTodos_def and_then_def check_page_def)

lemma getAllTodos_rejects_negative_limit:
  assumes "check_page (q_page p) = Inr ()" and "q_limit p = Some l" and "l < 0"
  shows "getAllTodos p w
    = (Inl (ValidationError Limit_too_small [(''field'', JStr (lit ''limit'')), (''value'', JNum l)]), w)"
  using assms by (simp add: getAllTodos_def and_then_def check_limit_low_def)

lemma getAllTodos_rejects_large_limit:
  assumes "check_page (q_page p) = Inr ()" and "q_limit p = Some l" and "100 < l"
  shows "getAllTodos p w
    = (Inl (ValidationError Limit_too_large [(''field'', JStr (lit ''limit'')), (''value'', JNum l)]), w)"
  using assms by (simp add: getAllTodos_def and_then_def check_limit_low_def check_limit_high_def)

text \<open>
  C5, at the inputs where the code departs from it. \<open>getAllTodos\<close> does not reject a page
  of zero or a limit of zero: the test \<open>params.page && params.page < 1\<close> is false for 0,
  the query runs, and what \<open>getAllTodos\<close> does is what \<open>findAll\<close> does; when the patterns
  of the query fit, that is a result, with the page 0 or the limit 0 in its metadata.
\<close>

theorem getAllTodos_accepts_zero:
  "getAllTodos (p\<lparr>q_page := Some 0, q_limit := None\<rparr>) w
     = findAll (p\<lparr>q_page := Some 0, q_limit := None\<rparr>) w
   \<and> getAllTodos (p\<lparr>q_page := None, q_limit := Some 0\<rparr>) w
     = findAll (p\<lparr>q_page := None, q_limit := Some 0\<rparr>) w
   \<and> (patterns_fit p \<longrightarrow>
        (\<exists>r. fst (getAllTodos (p\<lparr>q_page := Some 0, q_limit := None\<rparr>) w) = Inr r
            \<and> currentPage (meta r) = 0)
      \<and> (\<exists>r. fst (getAllTodos (p\<lparr>q_page := None, q_limit := Some 0\<rparr>) w) = Inr r
            \<and> itemsPerPage (meta r) = 0))"
proof -
  let ?p = "p\<lparr>q_page := Some 0, q_limit := None\<rparr>"
  let ?q = "p\<lparr>q_page := None, q_limit := Some 0\<rparr>"
  have gp: "getAllTodos ?p w = findAll ?p w"
    by (simp add: getAllTodos_def and_then_def check_page_def check_limit_low_def
      check_limit_high_def)
  have gq: "getAllTodos ?q w = findAll ?q w"
    by (simp add: getAllTodos_def and_then_def check_page_def check_limit_low_def
      check_limit_high_def)
  have bp: "bound_paging ?p = Inr (50, (0 - 1) * 50)"
    by (rule bound_paging_safe) (simp_all add: safe_paging_def)
  have bq: "bound_paging ?q = Inr (0, (1 - 1) * 0)"
    by (rule bound_paging_safe) (simp_all add: safe_paging_def)
  have r: "patterns_fit p \<longrightarrow>
        (\<exists>r. fst (getAllTodos ?p w) = Inr r \<and> currentPage (meta r) = 0)
      \<and> (\<exists>r. fst (getAllTodos ?q w) = Inr r \<and> itemsPerPage (meta r) = 0)"
  proof (intro impI conjI)
    assume "patterns_fit p"
    then have f: "patterns_fit (p\<lparr>q_page := pg, q_limit := l\<rparr>)" for pg l
      by (simp only: patterns_fit_paging)
    from findAll_Inr [OF patterns_fit_table [OF f, of _ _ "todos_table w"] bp]
    show "\<exists>r. fst (getAllTodos ?p w) = Inr r \<and> currentPage (meta r) = 0"
      by (simp add: gp)
    from findAll_Inr [OF patterns_fit_table [OF f, of _ _ "todos_table w"] bq]
    show "\<exists>r. fst (getAllTodos ?q w) = Inr r \<and> itemsPerPage (meta r) = 0"
      by (simp add: gq)
  qed
  show ?thesis
    by (rule conjI [OF gp conjI [OF gq r]])
qed

theorem getAllTodos_accepts_zero_witness:
  "patterns_fit all_todos
   \<and> (\<exists>r. fst (getAllTodos (all_todos\<lparr>q_page := Some 0, q_limit := None\<rparr>) world_three) = Inr r
        \<and> map title (data r) = [lit ''Call Ana'', lit ''Pay rent'', lit ''Water plants'']
        \<and> currentPage (meta r) = 0)"
proof -
  let ?p = "all_todos\<lparr>q_page := Some 0, q_limit := None\<rparr>"
  have f: "patterns_fit all_todos" by (rule all_todos_fit(3))
  note t = getAllTodos_accepts_zero [of all_todos world_three]
  from t have g: "getAllTodos ?p world_three = findAll ?p world_three"
    by (elim conjE)
  from t have "patterns_fit all_todos \<longrightarrow>
        (\<exists>r. fst (getAllTodos ?p world_three) = Inr r \<and> currentPage (meta r) = 0)
      \<and> (\<exists>r. fst (getAllTodos (all_todos\<lparr>q_page := None, q_limit := Some 0\<rparr>) world_three) = Inr r
            \<and> itemsPerPage (meta r) = 0)"
    by (elim conjE)
  with f have "\<exists>r. fst (getAllTodos ?p world_three) = Inr r \<and> currentPage (meta r) = 0"
    by simp
  then obtain r where r: "fst (getAllTodos ?p world_three) = Inr r" and c: "currentPage (meta r) = 0"
    by (elim exE conjE)
  have b: "bound_paging ?p = Inr (50, (0 - 1) * 50)"
    by (rule bound_paging_safe) (simp_all add: safe_paging_def)
  from r g have "fst (findAll ?p world_three) = Inr r" by simp
  from findAll_data [OF this] b
  have "data r = fst (map_world row_to_json (selected_rows ?p 50 (- 50) (todos_table world_three))
      world_three)"
    by simp
  then have "map title (data r) = map row_title (selected_rows ?p 50 (- 50) (todos_table world_three))"
    by (simp only: map_world_title)
  also have "\<dots> = [lit ''Call Ana'', lit ''Pay rent'', lit ''Water plants'']"
    by (simp add: world_three_table selected_rows_def order_clause_def
      order_by_def limit_offset_def where_clause_def all_todos_def)
  finally have d: "map title (data r) = [lit ''Call Ana'', lit ''Pay rent'', lit ''Water plants'']" .
  from r d c have "fst (getAllTodos ?p world_three) = Inr r
        \<and> map title (data r) = [lit ''Call Ana'', lit ''Pay rent'', lit ''Water plants'']
        \<and> currentPage (meta r) = 0"
    by (intro conjI)
  then have "\<exists>r. fst (getAllTodos ?p world_three) = Inr r
        \<and> map title (data r) = [lit ''Call Ana'', lit ''Pay rent'', lit ''Water plants'']
        \<and> currentPage (meta r) = 0"
    by (rule exI)
  with f show ?thesis by (rule conjI)
qed
section \<open>Search\<close>






























section \<open>Statistics\<close>

lemma stats_counts:
  "length stats_table = 40"
  "length (filter (\<lambda>r. row_completed r = 1) stats_table) = 23"
  by code_simp+

lemma rate_23_of_40: "Math_round (double_mul (double_div (of_int 23) (of_int 40)) 100) = 57"
  by code_simp

text \<open>
  C8, at an input where the code departs from it. With 23 of 40 todos completed the
  exact rate is 57.5, which rounds half up to 58; \<open>getStats\<close> computes \<open>23 / 40\<close> and
  then the product with 100 in double precision, obtains a number below 57.5 and
  returns 57.
\<close>

theorem completionRate_23_of_40:
  "total (fst (getStats stats_world)) = 40
   \<and> stats_completed (fst (getStats stats_world)) = 23
   \<and> completionRate (fst (getStats stats_world)) = 57
   \<and> \<lfloor>100 * 23 / 40 + 1 / 2 :: rat\<rfloor> = 58"
proof -
  have r: "\<lfloor>100 * 23 / 40 + 1 / 2 :: rat\<rfloor> = 58" by simp
  have "total (fst (getStats stats_world)) = 40"
    by (simp add: getStats_def count_def Let_def stats_world_def stats_counts)
  moreover have "stats_completed (fst (getStats stats_world)) = 23"
    by (simp add: getStats_def count_def Let_def stats_world_def stats_counts)
  moreover have "completionRate (fst (getStats stats_world)) = 57"
    using rate_23_of_40
    by (simp add: getStats_def count_def Let_def stats_world_def stats_counts)
  ultimately show ?thesis using r by simp
qed

end
